theory Spec2Isabelle
  imports Complex_Main "HOL-Library.Char_ord" "HOL-Library.List_Lexorder"
    "HOL-Library.Product_Lexorder" "HOL-Library.Log_Nat" "HOL-Library.Multiset"
begin

section \<open>Python values\<close>

text \<open>
  The adapters of \<^verbatim>\<open>scrape.py\<close> pass whatever the JSON responses hold on to the
  classifier, so the model works on JSON values. A dictionary is an association list
  (the first binding of a key is the one looked up). A text is a \<^typ>\<open>string\<close> whose
  characters stand for the code points 0 to 255.
\<close>

datatype json =
    JNull
  | JBool bool
  | JInt int
  | JFloat rat
  | JStr string
  | JArr "json list"
  | JObj "(string \<times> json) list"

text \<open>What the interpreter or a library raises.\<close>

datatype error =
    RequestError string
  | AttributeError
  | TypeError
  | ValueError
  | KeyError

text \<open>Truth value of a Python object, as \<^verbatim>\<open>or\<close> and \<^verbatim>\<open>not\<close> test it.\<close>

fun truthy :: "json \<Rightarrow> bool" where
  "truthy JNull = False"
| "truthy (JBool b) = b"
| "truthy (JInt n) = (n \<noteq> 0)"
| "truthy (JFloat q) = (q \<noteq> 0)"
| "truthy (JStr s) = (s \<noteq> [])"
| "truthy (JArr xs) = (xs \<noteq> [])"
| "truthy (JObj kvs) = (kvs \<noteq> [])"

definition py_or :: "json \<Rightarrow> json \<Rightarrow> json" where
  "py_or a b = (if truthy a then a else b)"

text \<open>\<^verbatim>\<open>x or ""\<close>\<close>

definition or_empty :: "json \<Rightarrow> json" where
  "or_empty x = py_or x (JStr [])"

text \<open>\<^verbatim>\<open>d.get(k, default)\<close>: only a dictionary has the method.\<close>

fun dict_get :: "json \<Rightarrow> string \<Rightarrow> json \<Rightarrow> error + json" where
  "dict_get (JObj kvs) k d = Inr (case map_of kvs k of Some v \<Rightarrow> v | None \<Rightarrow> d)"
| "dict_get _ k d = Inl AttributeError"

text \<open>Sequencing of computations that may raise.\<close>

definition bind :: "error + 'a \<Rightarrow> ('a \<Rightarrow> error + 'b) \<Rightarrow> error + 'b" where
  "bind m f = (case m of Inl e \<Rightarrow> Inl e | Inr x \<Rightarrow> f x)"

section \<open>Text\<close>

definition lower_char :: "char \<Rightarrow> char" where
  "lower_char c =
     (let n = (of_char c :: nat)
      in if (65 \<le> n \<and> n \<le> 90) \<or> (192 \<le> n \<and> n \<le> 222 \<and> n \<noteq> 215)
         then char_of (n + 32) else c)"

definition lower :: "string \<Rightarrow> string" where
  "lower s = map lower_char s"

definition isspace :: "char \<Rightarrow> bool" where
  "isspace c =
     (let n = (of_char c :: nat)
      in (9 \<le> n \<and> n \<le> 13) \<or> (28 \<le> n \<and> n \<le> 32) \<or> n = 133 \<or> n = 160)"

definition isdigit :: "char \<Rightarrow> bool" where
  "isdigit c = (let n = (of_char c :: nat) in 48 \<le> n \<and> n \<le> 57)"

definition strip :: "string \<Rightarrow> string" where
  "strip s = rev (dropWhile isspace (rev (dropWhile isspace s)))"

text \<open>\<^verbatim>\<open>.lower()\<close> and \<^verbatim>\<open>.strip()\<close> are methods of a text only.\<close>

fun str_lower :: "json \<Rightarrow> error + string" where
  "str_lower (JStr s) = Inr (lower s)"
| "str_lower _ = Inl AttributeError"

fun str_strip :: "json \<Rightarrow> error + string" where
  "str_strip (JStr s) = Inr (strip s)"
| "str_strip _ = Inl AttributeError"

fun starts_with :: "string \<Rightarrow> string \<Rightarrow> bool" where
  "starts_with [] t = True"
| "starts_with (k # ks) [] = False"
| "starts_with (k # ks) (c # cs) = (k = c \<and> starts_with ks cs)"

text \<open>\<^verbatim>\<open>k in t\<close> for two texts: \<open>k\<close> occurs in \<open>t\<close> at some position.\<close>

fun substring_in :: "string \<Rightarrow> string \<Rightarrow> bool" where
  "substring_in k [] = (k = [])"
| "substring_in k (c # cs) = (starts_with k (c # cs) \<or> substring_in k cs)"

section \<open>Text heuristics\<close>

definition UK_HINTS :: "string list" where
  "UK_HINTS =
     [''gb'', ''uk'', ''united kingdom'',
      ''london'', ''manchester'', ''birmingham'', ''leeds'', ''bristol'',
      ''glasgow'', ''edinburgh'', ''belfast'', ''cambridge'', ''oxford'']"

definition HIGH_TITLE_KEYWORDS :: "string list" where
  "HIGH_TITLE_KEYWORDS =
     [''graduate'', ''junior'', ''trainee'', ''assistant'', ''coordinator'',
      ''administrator'', ''admin'', ''apprentice'', ''intern'', ''placement'']"

definition LESS_TITLE_KEYWORDS :: "string list" where
  "LESS_TITLE_KEYWORDS = [''analyst'', ''officer'', ''executive'', ''associate'']"

definition SENIOR_EXCLUDE_KEYWORDS :: "string list" where
  "SENIOR_EXCLUDE_KEYWORDS =
     [''senior'', ''sr'', ''lead'', ''manager'', ''principal'', ''head'', ''director'', ''vp'',
      ''vice president'', ''chief'', ''cmo'', ''cto'', ''cfo'',
      ''product owner'', ''product manager'', ''programme manager'', ''program manager'',
      ''consultant'', ''specialist'', ''partner'', ''architect'',
      ''staff'', ''ii'', ''iii'', ''iv'']"

definition contains_any :: "json \<Rightarrow> string list \<Rightarrow> error + bool" where
  "contains_any text keywords =
     bind (str_lower (or_empty text)) (\<lambda>t.
     Inr (list_ex (\<lambda>k. substring_in k t) keywords))"

definition is_uk :: "json \<Rightarrow> error + bool" where
  "is_uk location =
     bind (str_strip (or_empty location)) (\<lambda>stripped.
     bind (str_lower (JStr stripped)) (\<lambda>loc.
     Inr (list_ex (\<lambda>h. substring_in h loc) UK_HINTS)))"

subsection \<open>Regular expressions\<close>

text \<open>
  The three patterns of \<^verbatim>\<open>extract_years\<close> are values of a small regular
  expression type, matched the way a backtracking matcher does: \<open>rmatch r st\<close> lists
  every way \<open>r\<close> can match a prefix of the text in \<open>st\<close>, in the order of preference
  (greedy repetition, left alternative first); each result carries the rest of the text and
  the captured groups, the most recent first.
\<close>

datatype regex =
    Eps
  | Chr char
  | CodePoint nat
  | Digit
  | Space
  | Seq regex regex
  | Alt regex regex
  | Star regex
  | Group nat regex

type_synonym mstate = "string \<times> (nat \<times> string) list"

function rmatch :: "regex \<Rightarrow> mstate \<Rightarrow> mstate list" where
  "rmatch Eps st = [st]"
| "rmatch (Chr c) st =
     (case fst st of [] \<Rightarrow> [] | x # xs \<Rightarrow> if x = c then [(xs, snd st)] else [])"
| "rmatch (CodePoint n) st =
     (case fst st of [] \<Rightarrow> [] | x # xs \<Rightarrow> if of_char x = n then [(xs, snd st)] else [])"
| "rmatch Digit st =
     (case fst st of [] \<Rightarrow> [] | x # xs \<Rightarrow> if isdigit x then [(xs, snd st)] else [])"
| "rmatch Space st =
     (case fst st of [] \<Rightarrow> [] | x # xs \<Rightarrow> if isspace x then [(xs, snd st)] else [])"
| "rmatch (Seq r1 r2) st = concat (map (rmatch r2) (rmatch r1 st))"
| "rmatch (Alt r1 r2) st = rmatch r1 st @ rmatch r2 st"
| "rmatch (Star r) st =
     concat (map (\<lambda>st'. if length (fst st') < length (fst st) then rmatch (Star r) st' else [])
                 (rmatch r st)) @ [st]"
| "rmatch (Group n r) st =
     map (\<lambda>st'. (fst st', (n, take (length (fst st) - length (fst st')) (fst st)) # snd st'))
         (rmatch r st)"
  by pat_completeness auto
termination
  by (relation "measures [\<lambda>(r, st). size r, \<lambda>(r, st). length (fst st)]") auto

text \<open>\<^verbatim>\<open>r+\<close> and \<^verbatim>\<open>r?\<close>\<close>

definition Plus :: "regex \<Rightarrow> regex" where
  "Plus r = Seq r (Star r)"

definition Opt :: "regex \<Rightarrow> regex" where
  "Opt r = Alt r Eps"

fun seqs :: "regex list \<Rightarrow> regex" where
  "seqs [] = Eps"
| "seqs (r # rs) = Seq r (seqs rs)"

definition lits :: "string \<Rightarrow> regex" where
  "lits s = seqs (map Chr s)"

text \<open>\<^verbatim>\<open>re.search\<close>: the leftmost start with a match, and there the preferred match.\<close>

fun re_search :: "regex \<Rightarrow> string \<Rightarrow> (nat \<times> string) list option" where
  "re_search r [] = (case rmatch r ([], []) of [] \<Rightarrow> None | st # _ \<Rightarrow> Some (snd st))"
| "re_search r (c # cs) =
     (case rmatch r (c # cs, []) of [] \<Rightarrow> re_search r cs | st # _ \<Rightarrow> Some (snd st))"

text \<open>\<^verbatim>\<open>\d+(?:\.\d+)?\<close>\<close>

definition number :: regex where
  "number = Seq (Plus Digit) (Opt (Seq (Chr CHR ''.'') (Plus Digit)))"

text \<open>
  \<^verbatim>\<open>(\d+(?:\.\d+)?)\s*(?:-|<en dash>|to)\s*(\d+(?:\.\d+)?)\s*years?\<close>; the en dash is
  the code point 8211, which no character of a \<^typ>\<open>string\<close> has.
\<close>

definition RANGE_PATTERN :: regex where
  "RANGE_PATTERN =
     seqs [Group 1 number, Star Space,
           Alt (Chr CHR ''-'') (Alt (CodePoint 8211) (lits ''to'')),
           Star Space, Group 2 number, Star Space, lits ''year'', Opt (Chr CHR ''s'')]"

text \<open>\<^verbatim>\<open>up to\s*(\d+(?:\.\d+)?)\s*years?\<close>\<close>

definition UPTO_PATTERN :: regex where
  "UPTO_PATTERN =
     seqs [lits ''up to'', Star Space, Group 1 number, Star Space,
           lits ''year'', Opt (Chr CHR ''s'')]"

text \<open>\<^verbatim>\<open>(\d+(?:\.\d+)?)\s*\+\s*years?\<close>\<close>

definition PLUS_PATTERN :: regex where
  "PLUS_PATTERN =
     seqs [Group 1 number, Star Space, Chr CHR ''+'', Star Space,
           lits ''year'', Opt (Chr CHR ''s'')]"

subsection \<open>Floating point numbers\<close>

text \<open>
  \<^verbatim>\<open>float(s)\<close> is the binary64 number nearest to the decimal \<open>s\<close> (ties to the even
  significand), or infinity when that is out of range. The model is exact on the texts
  the patterns capture, digits with an optional fraction.
\<close>

datatype pyfloat = Finite rat | Infinity

definition digits_value :: "string \<Rightarrow> int" where
  "digits_value s = foldl (\<lambda>acc c. 10 * acc + (of_char c - 48)) 0 s"

definition decimal_value :: "string \<Rightarrow> rat" where
  "decimal_value s =
     (let ip = takeWhile (\<lambda>c. c \<noteq> CHR ''.'') s;
          fp = drop 1 (dropWhile (\<lambda>c. c \<noteq> CHR ''.'') s)
      in of_int (digits_value ip) + of_int (digits_value fp) / 10 ^ length fp)"

definition round_half_even :: "rat \<Rightarrow> int" where
  "round_half_even q =
     (let f = \<lfloor>q\<rfloor>; d = q - of_int f
      in if d < 1 / 2 then f else if 1 / 2 < d then f + 1 else if even f then f else f + 1)"

definition pow2 :: "int \<Rightarrow> rat" where
  "pow2 e = (if 0 \<le> e then 2 ^ nat e else 1 / 2 ^ nat (- e))"

text \<open>The exponent \<open>e\<close> of a positive number: \<open>2 ^ e \<le> q < 2 ^ (e + 1)\<close>.\<close>

definition exponent :: "rat \<Rightarrow> int" where
  "exponent q =
     (if 1 \<le> q then bitlen \<lfloor>q\<rfloor> - 1
      else let j = bitlen \<lfloor>1 / q\<rfloor> - 1
           in if q * pow2 j = 1 then - j else - (j + 1))"

definition binary64 :: "rat \<Rightarrow> pyfloat" where
  "binary64 q =
     (if q = 0 then Finite 0
      else let u = pow2 (max (exponent q) (- 1022) - 52);
               v = of_int (round_half_even (q / u)) * u
           in if pow2 1024 \<le> v then Infinity else Finite v)"

definition py_float :: "string \<Rightarrow> pyfloat" where
  "py_float s = binary64 (decimal_value s)"

text \<open>\<^verbatim>\<open>x >= n\<close> for a float and an integer\<close>

fun float_ge :: "pyfloat \<Rightarrow> int \<Rightarrow> bool" where
  "float_ge (Finite q) n = (of_int n \<le> q)"
| "float_ge Infinity n = True"

text \<open>\<^verbatim>\<open>float(m.group(n))\<close>; a group that took no part in the match is \<^verbatim>\<open>None\<close>.\<close>

definition float_group :: "(nat \<times> string) list \<Rightarrow> nat \<Rightarrow> error + pyfloat" where
  "float_group m n = (case map_of m n of None \<Rightarrow> Inl TypeError | Some s \<Rightarrow> Inr (py_float s))"

subsection \<open>Years of experience and the bucket\<close>

definition extract_years :: "json \<Rightarrow> error + (pyfloat option \<times> pyfloat option)" where
  "extract_years text =
     bind (str_lower (or_empty text)) (\<lambda>t.
       case re_search RANGE_PATTERN t of
         Some m \<Rightarrow>
           bind (float_group m 1) (\<lambda>lo.
           bind (float_group m 2) (\<lambda>hi. Inr (Some lo, Some hi)))
       | None \<Rightarrow>
          (case re_search UPTO_PATTERN t of
             Some m \<Rightarrow> bind (float_group m 1) (\<lambda>hi. Inr (Some (Finite 0), Some hi))
           | None \<Rightarrow>
              (case re_search PLUS_PATTERN t of
                 Some m \<Rightarrow> bind (float_group m 1) (\<lambda>lo. Inr (Some lo, None))
               | None \<Rightarrow> Inr (None, None))))"

definition bucket_job :: "json \<Rightarrow> json \<Rightarrow> json \<Rightarrow> error + (string \<times> string)" where
  "bucket_job title location description_text =
     bind (str_lower (or_empty title)) (\<lambda>title_l.
     bind (contains_any (JStr title_l) SENIOR_EXCLUDE_KEYWORDS) (\<lambda>senior.
       if senior then Inr (''EXCLUDE'', ''Senior keyword in title'')
       else
     bind (is_uk location) (\<lambda>uk.
       if \<not> uk then Inr (''IGNORE'', ''Not UK location'')
       else
     bind (extract_years (or_empty description_text)) (\<lambda>(y_min, y_max).
       if (case y_min of None \<Rightarrow> False | Some y \<Rightarrow> float_ge y 5)
       then Inr (''EXCLUDE'', ''5+ years mentioned'')
       else
     bind (contains_any (JStr title_l) HIGH_TITLE_KEYWORDS) (\<lambda>high.
       if high then Inr (''HIGH'', ''Strong junior keyword in title'')
       else
     bind (contains_any (JStr title_l) LESS_TITLE_KEYWORDS) (\<lambda>less.
       if less then Inr (''LESS'', ''Stealth junior keyword in title'')
       else Inr (''LESS'', ''No strong signal (kept for review)'')))))))"

section \<open>More of Python\<close>

text \<open>\<^verbatim>\<open>d[k]\<close>\<close>

fun subscript :: "json \<Rightarrow> string \<Rightarrow> error + json" where
  "subscript (JObj kvs) k = (case map_of kvs k of Some v \<Rightarrow> Inr v | None \<Rightarrow> Inl KeyError)"
| "subscript _ k = Inl TypeError"

text \<open>The keys of a dictionary, each once, in the order of their first binding.\<close>

definition dict_keys :: "(string \<times> json) list \<Rightarrow> string list" where
  "dict_keys kvs = rev (remdups (rev (map fst kvs)))"

text \<open>What a \<^verbatim>\<open>for\<close> loop over a value runs through.\<close>

fun py_iter :: "json \<Rightarrow> error + json list" where
  "py_iter (JArr xs) = Inr xs"
| "py_iter (JObj kvs) = Inr (map JStr (dict_keys kvs))"
| "py_iter (JStr s) = Inr (map (\<lambda>c. JStr [c]) s)"
| "py_iter _ = Inl TypeError"

text \<open>\<^verbatim>\<open>k in v\<close> for a text \<open>k\<close>\<close>

fun key_in :: "string \<Rightarrow> json \<Rightarrow> error + bool" where
  "key_in k (JObj kvs) = Inr (k \<in> set (map fst kvs))"
| "key_in k (JArr xs) = Inr (JStr k \<in> set xs)"
| "key_in k (JStr s) = Inr (substring_in k s)"
| "key_in k _ = Inl TypeError"

fun is_dict :: "json \<Rightarrow> bool" where
  "is_dict (JObj kvs) = True"
| "is_dict _ = False"

text \<open>A loop that appends one entry per element; the first error ends it.\<close>

fun map_result :: "('a \<Rightarrow> error + 'b) \<Rightarrow> 'a list \<Rightarrow> error + 'b list" where
  "map_result f [] = Inr []"
| "map_result f (x # xs) = bind (f x) (\<lambda>y. bind (map_result f xs) (\<lambda>ys. Inr (y # ys)))"

text \<open>\<^verbatim>\<open>s.rstrip("/")\<close> and \<^verbatim>\<open>s.strip("/")\<close>\<close>

definition rstrip_slash :: "string \<Rightarrow> string" where
  "rstrip_slash s = rev (dropWhile (\<lambda>c. c = CHR ''/'') (rev s))"

definition strip_slash :: "string \<Rightarrow> string" where
  "strip_slash s = rstrip_slash (dropWhile (\<lambda>c. c = CHR ''/'') s)"

section \<open>Platform adapters\<close>

text \<open>
  The network is a parameter: \<open>http_get url\<close> is what \<^verbatim>\<open>fetch_json(url)\<close> returns or
  raises, \<open>http_post url offset\<close> is the decoded response to the Workday search request
  with that offset (or what the request raises), and \<open>urlparse url\<close> is the network
  location and the path that the standard library finds in a URL.
\<close>

record world =
  http_get :: "string \<Rightarrow> error + json"
  http_post :: "string \<Rightarrow> int \<Rightarrow> error + json"
  urlparse :: "string \<Rightarrow> string \<times> string"

definition fetch_json :: "world \<Rightarrow> string \<Rightarrow> error + json" where
  "fetch_json w url = http_get w url"

subsection \<open>Pinpoint\<close>

definition nested_name :: "json \<Rightarrow> string \<Rightarrow> error + json" where
  \<comment> \<open>\<^verbatim>\<open>(p.get(k) or {}).get("name", "") or ""\<close>\<close>
  "nested_name p k =
     bind (dict_get p k JNull) (\<lambda>v.
     bind (dict_get (py_or v (JObj [])) ''name'' (JStr [])) (\<lambda>n.
     Inr (or_empty n)))"

definition pinpoint_posting :: "json \<Rightarrow> error + json" where
  "pinpoint_posting p =
     bind (dict_get p ''title'' (JStr [])) (\<lambda>title.
     bind (nested_name p ''location'') (\<lambda>location.
     bind (nested_name p ''department'') (\<lambda>department.
     bind (dict_get p ''url'' (JStr [])) (\<lambda>url.
     bind (dict_get p ''employment_type_text'' (JStr [])) (\<lambda>et_text.
     bind (dict_get p ''employment_type'' (JStr [])) (\<lambda>et.
     bind (dict_get p ''description'' (JStr [])) (\<lambda>description.
     Inr (JObj [(''title'', title),
                (''location'', location),
                (''department'', department),
                (''url'', or_empty url),
                (''employment_type'', or_empty (py_or et_text et)),
                (''description'', or_empty description)]))))))))"

definition scrape_pinpoint :: "world \<Rightarrow> string \<Rightarrow> error + json list" where
  "scrape_pinpoint w base_url =
     bind (fetch_json w (rstrip_slash base_url @ ''/postings.json'')) (\<lambda>payload.
     bind (dict_get payload ''data'' JNull) (\<lambda>data.
     bind (py_iter (py_or data (JArr []))) (\<lambda>postings.
     map_result pinpoint_posting postings)))"

subsection \<open>Greenhouse\<close>

definition greenhouse_location :: "json \<Rightarrow> error + json" where
  "greenhouse_location j =
     bind (dict_get j ''location'' JNull) (\<lambda>loc.
       if is_dict loc then dict_get (py_or loc (JObj [])) ''name'' (JStr [])
       else Inr (or_empty loc))"

text \<open>The dictionary that both loops of \<^verbatim>\<open>scrape_greenhouse\<close> append for a job \<open>j\<close>.\<close>

definition greenhouse_posting :: "json \<Rightarrow> json \<Rightarrow> error + json" where
  "greenhouse_posting department j =
     bind (dict_get j ''title'' (JStr [])) (\<lambda>title.
     bind (greenhouse_location j) (\<lambda>location.
     bind (dict_get j ''absolute_url'' (JStr [])) (\<lambda>url.
     bind (dict_get j ''content'' (JStr [])) (\<lambda>content.
     Inr (JObj [(''title'', title),
                (''location'', location),
                (''department'', department),
                (''url'', or_empty url),
                (''employment_type'', JStr []),
                (''description'', or_empty content)])))))"

definition department_postings :: "json \<Rightarrow> error + json list" where
  "department_postings dep =
     bind (dict_get dep ''name'' (JStr [])) (\<lambda>dep_name.
     bind (dict_get dep ''jobs'' (JArr [])) (\<lambda>js.
     bind (py_iter js) (\<lambda>jl.
     map_result (greenhouse_posting dep_name) jl)))"

definition greenhouse_jobs :: "json \<Rightarrow> error + json list" where
  "greenhouse_jobs payload =
     bind (key_in ''jobs'' payload) (\<lambda>has_jobs.
     bind (if has_jobs
           then bind (dict_get payload ''jobs'' (JArr [])) (\<lambda>js.
                bind (py_iter js) (\<lambda>jl.
                map_result (greenhouse_posting (JStr [])) jl))
           else Inr []) (\<lambda>flat.
     bind (key_in ''departments'' payload) (\<lambda>has_departments.
     bind (if has_departments
           then bind (dict_get payload ''departments'' (JArr [])) (\<lambda>ds.
                bind (py_iter ds) (\<lambda>dl.
                bind (map_result department_postings dl) (\<lambda>pss.
                Inr (concat pss))))
           else Inr []) (\<lambda>grouped.
     Inr (flat @ grouped)))))"

definition scrape_greenhouse :: "world \<Rightarrow> string \<Rightarrow> error + json list" where
  "scrape_greenhouse w boards_url =
     bind (fetch_json w (rstrip_slash boards_url @ ''?format=json'')) greenhouse_jobs"

subsection \<open>Workday\<close>

text \<open>\<^verbatim>\<open>s.split(sep)\<close> for a separator of one character\<close>

fun split_on :: "char \<Rightarrow> string \<Rightarrow> string list" where
  "split_on sep [] = [[]]"
| "split_on sep (c # cs) =
     (if c = sep then [] # split_on sep cs
      else case split_on sep cs of [] \<Rightarrow> [[c]] | p # ps \<Rightarrow> (c # p) # ps)"

text \<open>
  \<^verbatim>\<open>int(x)\<close>. A text is a decimal numeral: optional blanks around it, an optional sign,
  digits that single underscores may separate, at most 4300 digits.
\<close>

definition int_blank :: "char \<Rightarrow> bool" where
  "int_blank c =
     (let n = (of_char c :: nat) in (9 \<le> n \<and> n \<le> 13) \<or> n = 32 \<or> n = 133 \<or> n = 160)"

fun digit_groups :: "string \<Rightarrow> bool" where
  "digit_groups [] = False"
| "digit_groups [c] = isdigit c"
| "digit_groups (c # d # cs) =
     (isdigit c \<and> (if d = CHR ''_'' then digit_groups cs else digit_groups (d # cs)))"

definition int_of_text :: "string \<Rightarrow> error + int" where
  "int_of_text s =
     (let t = rev (dropWhile int_blank (rev (dropWhile int_blank s)));
          negative = (case t of [] \<Rightarrow> False | c # _ \<Rightarrow> c = CHR ''-'');
          ds = (case t of [] \<Rightarrow> [] | c # r \<Rightarrow> if c = CHR ''-'' \<or> c = CHR ''+'' then r else t)
      in if digit_groups ds \<and> length (filter isdigit ds) \<le> 4300
         then Inr ((if negative then - 1 else 1) * digits_value (filter isdigit ds))
         else Inl ValueError)"

fun py_int :: "json \<Rightarrow> error + int" where
  "py_int (JInt n) = Inr n"
| "py_int (JBool b) = Inr (if b then 1 else 0)"
| "py_int (JFloat q) = Inr (if 0 \<le> q then \<lfloor>q\<rfloor> else \<lceil>q\<rceil>)"
| "py_int (JStr s) = int_of_text s"
| "py_int _ = Inl TypeError"

definition workday_url :: "string \<Rightarrow> json \<Rightarrow> error + json" where
  "workday_url host external_path =
     (if truthy external_path
      then (case external_path of
              JStr s \<Rightarrow>
                Inr (if starts_with ''/'' s then JStr (''https://'' @ host @ s) else external_path)
            | _ \<Rightarrow> Inl AttributeError)
      else Inr external_path)"

definition workday_posting :: "string \<Rightarrow> json \<Rightarrow> error + json" where
  "workday_posting host it =
     bind (dict_get it ''title'' JNull) (\<lambda>t1.
     bind (dict_get it ''jobPostingTitle'' JNull) (\<lambda>t2.
     bind (dict_get it ''externalPath'' JNull) (\<lambda>e1.
     bind (dict_get it ''externalUrl'' JNull) (\<lambda>e2.
     bind (workday_url host (or_empty (py_or e1 e2))) (\<lambda>url.
     bind (dict_get it ''locationsText'' JNull) (\<lambda>l1.
     bind (dict_get it ''location'' JNull) (\<lambda>l2.
     bind (dict_get it ''primaryLocation'' JNull) (\<lambda>l3.
     Inr (JObj [(''title'', or_empty (py_or t1 t2)),
                (''location'', or_empty (py_or (py_or l1 l2) l3)),
                (''department'', JStr []),
                (''url'', url),
                (''employment_type'', JStr []),
                (''description'', JStr [])])))))))))"

text \<open>How one pass through the body of the \<^verbatim>\<open>while True\<close> loop ends.\<close>

datatype flow = Break "json list" | Again "json list"

definition limit :: int where
  "limit = 20"

text \<open>\<^verbatim>\<open>payload.get("jobPostings") or payload.get("items") or []\<close>\<close>

definition page_items :: "json \<Rightarrow> error + json" where
  "page_items payload =
     bind (dict_get payload ''jobPostings'' JNull) (\<lambda>i1.
     bind (dict_get payload ''items'' JNull) (\<lambda>i2.
     Inr (py_or (py_or i1 i2) (JArr []))))"

text \<open>\<^verbatim>\<open>payload.get("total") or payload.get("totalCount")\<close>\<close>

definition reported_total :: "json \<Rightarrow> error + json" where
  "reported_total payload =
     bind (dict_get payload ''total'' JNull) (\<lambda>t1.
     bind (dict_get payload ''totalCount'' JNull) (\<lambda>t2.
     Inr (py_or t1 t2)))"

text \<open>
  The body of the loop after the response \<open>payload\<close> to the request with \<open>offset\<close> has
  arrived.
\<close>

definition workday_page :: "string \<Rightarrow> int \<Rightarrow> json list \<Rightarrow> json \<Rightarrow> error + flow" where
  "workday_page host offset all_jobs payload =
     bind (page_items payload) (\<lambda>items.
     if \<not> truthy items then Inr (Break all_jobs)
     else
     bind (py_iter items) (\<lambda>its.
     bind (map_result (workday_posting host) its) (\<lambda>new.
     let all_jobs' = all_jobs @ new; offset' = offset + limit in
     bind (reported_total payload) (\<lambda>total.
     bind (if total \<noteq> JNull then bind (py_int total) (\<lambda>n. Inr (n \<le> offset')) else Inr False)
       (\<lambda>reached.
     if reached then Inr (Break all_jobs')
     else if 500 < offset' then Inr (Break all_jobs')
     else Inr (Again all_jobs'))))))"

lemma workday_page_Again:
  "workday_page host offset all_jobs payload = Inr (Again jobs) \<Longrightarrow> offset + 20 \<le> 500"
  by (auto simp add: workday_page_def bind_def Let_def limit_def split: sum.splits if_splits)

text \<open>
  The loop, from the request with \<open>offset\<close> on. Beside what \<^verbatim>\<open>scrape_workday\<close> returns
  or raises, the result lists the offsets of the requests that were sent, in order.
\<close>

function workday_loop ::
  "(int \<Rightarrow> error + json) \<Rightarrow> string \<Rightarrow> int \<Rightarrow> json list \<Rightarrow> int list \<times> (error + json list)"
where
  "workday_loop post host offset all_jobs =
     (case post offset of
        Inl e \<Rightarrow> ([offset], Inl e)
      | Inr payload \<Rightarrow>
         (case workday_page host offset all_jobs payload of
            Inl e \<Rightarrow> ([offset], Inl e)
          | Inr (Break jobs) \<Rightarrow> ([offset], Inr jobs)
          | Inr (Again jobs) \<Rightarrow>
              (let rest = workday_loop post host (offset + limit) jobs
               in (offset # fst rest, snd rest))))"
  by pat_completeness auto
termination
  by (relation "measure (\<lambda>(post, host, offset, all_jobs). nat (521 - offset))")
     (auto simp add: limit_def dest: workday_page_Again)

fun site_slug_of :: "string list \<Rightarrow> string" where
  "site_slug_of [p] = p"
| "site_slug_of (locale # p # ps) = p"
| "site_slug_of [] = []"

text \<open>
  The requests that \<^verbatim>\<open>scrape_workday(site_url)\<close> sends, by their offsets, and what it
  returns or raises.
\<close>

definition workday_search :: "world \<Rightarrow> string \<Rightarrow> int list \<times> (error + json list)" where
  "workday_search w site_url =
     (let host = fst (urlparse w site_url);
          path = strip_slash (snd (urlparse w site_url));
          parts = split_on CHR ''/'' path;
          site_slug = site_slug_of parts;
          tenant = (case split_on CHR ''.'' host of [] \<Rightarrow> [] | t # ts \<Rightarrow> t);
          search_url = ''https://'' @ host @ ''/wday/cxs/'' @ tenant @ ''/'' @ site_slug @ ''/jobs''
      in workday_loop (http_post w search_url) host 0 [])"

definition scrape_workday :: "world \<Rightarrow> string \<Rightarrow> error + json list" where
  "scrape_workday w site_url = snd (workday_search w site_url)"

section \<open>Pipeline\<close>

record employer =
  emp_name :: string
  emp_type :: string
  emp_url :: string
  emp_country :: string

text \<open>What \<^verbatim>\<open>main\<close> prints.\<close>

datatype event =
    Skipping string string
  | Kept string nat
  | Failed string error
  | Wrote nat

text \<open>
  One pass through the body of \<^verbatim>\<open>for j in jobs\<close>: the row to append, or nothing when
  the posting is dropped.
\<close>

definition job_row :: "string \<Rightarrow> json \<Rightarrow> error + json option" where
  "job_row name j =
     bind (subscript j ''title'') (\<lambda>title.
     bind (dict_get j ''location'' (JStr [])) (\<lambda>location.
     bind (dict_get j ''description'' (JStr [])) (\<lambda>description.
     bind (bucket_job title location description) (\<lambda>(bucket, reason).
     if bucket \<in> set [''EXCLUDE'', ''IGNORE''] then Inr None
     else
     bind (dict_get j ''department'' (JStr [])) (\<lambda>department.
     bind (dict_get j ''employment_type'' (JStr [])) (\<lambda>employment_type.
     bind (dict_get j ''url'' (JStr [])) (\<lambda>url.
     Inr (Some (JObj [(''employer'', JStr name),
                      (''title'', title),
                      (''location'', location),
                      (''department'', department),
                      (''employment_type'', employment_type),
                      (''url'', url),
                      (''bucket'', JStr bucket),
                      (''reason'', JStr reason)])))))))))"

text \<open>
  The loop over the postings of one employer: the rows after it, and the exception that
  ended it early, if one did. Rows appended before the exception stay.
\<close>

fun classify :: "string \<Rightarrow> json list \<Rightarrow> json list \<Rightarrow> json list \<times> error option" where
  "classify name [] rows = (rows, None)"
| "classify name (j # js) rows =
     (case job_row name j of
        Inl e \<Rightarrow> (rows, Some e)
      | Inr None \<Rightarrow> classify name js rows
      | Inr (Some r) \<Rightarrow> classify name js (rows @ [r]))"

text \<open>The adapter call of the \<^verbatim>\<open>try\<close> block; \<open>None\<close> for an unsupported type.\<close>

definition call_adapter :: "world \<Rightarrow> employer \<Rightarrow> (error + json list) option" where
  "call_adapter w emp =
     (if emp_type emp = ''pinpoint'' then Some (scrape_pinpoint w (emp_url emp))
      else if emp_type emp = ''greenhouse'' then Some (scrape_greenhouse w (emp_url emp))
      else if emp_type emp = ''workday'' then Some (scrape_workday w (emp_url emp))
      else None)"

definition kept_count :: "string \<Rightarrow> json list \<Rightarrow> nat" where
  "kept_count name rows = length (filter (\<lambda>r. subscript r ''employer'' = Inr (JStr name)) rows)"

text \<open>The body of \<^verbatim>\<open>for emp in employers\<close>, on the rows and the printed lines so far.\<close>

fun process_employer ::
  "world \<Rightarrow> json list \<times> event list \<Rightarrow> employer \<Rightarrow> json list \<times> event list" where
  "process_employer w (rows, out) emp =
     (case call_adapter w emp of
        None \<Rightarrow> (rows, out @ [Skipping (emp_name emp) (emp_type emp)])
      | Some (Inl e) \<Rightarrow> (rows, out @ [Failed (emp_name emp) e])
      | Some (Inr jobs) \<Rightarrow>
         (case classify (emp_name emp) jobs rows of
            (rows', None) \<Rightarrow> (rows', out @ [Kept (emp_name emp) (kept_count (emp_name emp) rows')])
          | (rows', Some e) \<Rightarrow> (rows', out @ [Failed (emp_name emp) e])))"

definition collect :: "world \<Rightarrow> employer list \<Rightarrow> json list \<times> event list" where
  "collect w employers = foldl (process_employer w) ([], []) employers"

subsection \<open>The output table\<close>

text \<open>
  The data frame is a list of columns and a list of rows. A frame made from a list of
  dictionaries has their keys as columns, in the order of their first appearance.
\<close>

record table =
  columns :: "string list"
  body :: "json list"

definition COLUMNS :: "string list" where
  "COLUMNS = [''employer'', ''title'', ''location'', ''department'', ''employment_type'',
              ''url'', ''bucket'', ''reason'']"

fun keys_of :: "json \<Rightarrow> string list" where
  "keys_of (JObj kvs) = dict_keys kvs"
| "keys_of _ = []"

definition DataFrame :: "json list \<Rightarrow> table" where
  "DataFrame rows =
     \<lparr>columns = rev (remdups (rev (concat (map keys_of rows)))), body = rows\<rparr>"

text \<open>
  A column is ordered as text, by code points; a value that is not a text counts as
  missing and comes after every text.
\<close>

fun cell_key :: "json \<Rightarrow> nat \<times> string" where
  "cell_key (JStr s) = (0, s)"
| "cell_key _ = (1, [])"

definition cell :: "json \<Rightarrow> string \<Rightarrow> json" where
  "cell r k = (case r of JObj kvs \<Rightarrow> (case map_of kvs k of Some v \<Rightarrow> v | None \<Rightarrow> JNull) | _ \<Rightarrow> JNull)"

definition row_key :: "json \<Rightarrow> (nat \<times> string) \<times> (nat \<times> string) \<times> (nat \<times> string)" where
  "row_key r = (cell_key (cell r ''bucket''), cell_key (cell r ''employer''),
                cell_key (cell r ''title''))"

text \<open>\<^verbatim>\<open>df.sort_values(["bucket", "employer", "title"], ascending=[True, True, True])\<close>\<close>

definition sort_values :: "table \<Rightarrow> table" where
  "sort_values df = df\<lparr>body := sort_key row_key (body df)\<rparr>"

text \<open>
  \<^verbatim>\<open>main\<close>, from the employers that \<^verbatim>\<open>load_employers\<close> has read: the table written
  to \<^verbatim>\<open>jobs_output.csv\<close> (the header row and the data rows) and the printed lines.
\<close>

definition main :: "world \<Rightarrow> employer list \<Rightarrow> table \<times> event list" where
  "main w employers =
     (let (rows, out) = collect w employers;
          df = DataFrame rows;
          df = (if body df = [] then \<lparr>columns = COLUMNS, body = []\<rparr> else df);
          df = sort_values df
      in (df, out @ [Wrote (length (body df))]))"

subsection \<open>Shapes of a Greenhouse response\<close>

text \<open>The entries listed under a key of a response: none when the key is absent.\<close>

definition listed :: "(string \<times> json) list \<Rightarrow> string \<Rightarrow> error + json list" where
  "listed kvs k = (case map_of kvs k of None \<Rightarrow> Inr [] | Some v \<Rightarrow> py_iter v)"

text \<open>A department of a Greenhouse response, from its name and its jobs.\<close>

definition department_of :: "json \<times> (string \<times> json) list list \<Rightarrow> json" where
  "department_of d = JObj [(''name'', fst d), (''jobs'', JArr (map JObj (snd d)))]"

subsection \<open>An example run\<close>

text \<open>
  A Greenhouse board with a flat list and a department, and a Pinpoint board that cannot
  be reached.
\<close>

definition example_fields :: "(string \<times> json) list" where
  "example_fields =
          [(''jobs'', JArr [
              JObj [(''title'', JStr ''Graduate Analyst''),
                    (''location'', JObj [(''name'', JStr ''London, UK'')]),
                    (''absolute_url'', JStr ''https://boards.greenhouse.io/acme/jobs/1'')],
              JObj [(''title'', JStr ''Senior Engineer''),
                    (''location'', JObj [(''name'', JStr ''London, UK'')])]]),
           (''departments'', JArr [
              JObj [(''name'', JStr ''Data''),
                    (''jobs'', JArr [
                       JObj [(''title'', JStr ''Data Officer''), (''location'', JStr ''Leeds'')],
                       JObj [(''title'', JStr ''Clerk''), (''location'', JStr ''Paris'')]])]])]"

definition example_payload :: json where
  "example_payload = JObj example_fields"

text \<open>The postings that the Greenhouse adapter makes of this response.\<close>

definition example_postings :: "json list" where
  "example_postings =
     [JObj [(''title'', JStr ''Graduate Analyst''), (''location'', JStr ''London, UK''),
            (''department'', JStr []),
            (''url'', JStr ''https://boards.greenhouse.io/acme/jobs/1''),
            (''employment_type'', JStr []), (''description'', JStr [])],
      JObj [(''title'', JStr ''Senior Engineer''), (''location'', JStr ''London, UK''),
            (''department'', JStr []), (''url'', JStr []),
            (''employment_type'', JStr []), (''description'', JStr [])],
      JObj [(''title'', JStr ''Data Officer''), (''location'', JStr ''Leeds''),
            (''department'', JStr ''Data''), (''url'', JStr []),
            (''employment_type'', JStr []), (''description'', JStr [])],
      JObj [(''title'', JStr ''Clerk''), (''location'', JStr ''Paris''),
            (''department'', JStr ''Data''), (''url'', JStr []),
            (''employment_type'', JStr []), (''description'', JStr [])]]"

definition example_world :: world where
  "example_world =
     \<lparr>http_get = (\<lambda>url. if url = ''https://boards.greenhouse.io/acme?format=json''
                          then Inr example_payload
                          else Inl (RequestError ''connection refused'')),
      http_post = (\<lambda>url offset. Inl (RequestError ''connection refused'')),
      urlparse = (\<lambda>url. ([], []))\<rparr>"

definition broken :: employer where
  "broken = \<lparr>emp_name = ''Broken'', emp_type = ''pinpoint'',
              emp_url = ''https://broken.pinpointhq.com'', emp_country = ''UK''\<rparr>"

definition acme :: employer where
  "acme = \<lparr>emp_name = ''Acme'', emp_type = ''greenhouse'',
            emp_url = ''https://boards.greenhouse.io/acme/'', emp_country = ''UK''\<rparr>"

definition analyst_row :: json where
  "analyst_row =
     JObj [(''employer'', JStr ''Acme''), (''title'', JStr ''Graduate Analyst''),
           (''location'', JStr ''London, UK''), (''department'', JStr []),
           (''employment_type'', JStr []),
           (''url'', JStr ''https://boards.greenhouse.io/acme/jobs/1''),
           (''bucket'', JStr ''HIGH''), (''reason'', JStr ''Strong junior keyword in title'')]"

definition officer_row :: json where
  "officer_row =
     JObj [(''employer'', JStr ''Acme''), (''title'', JStr ''Data Officer''),
           (''location'', JStr ''Leeds''), (''department'', JStr ''Data''),
           (''employment_type'', JStr []), (''url'', JStr []),
           (''bucket'', JStr ''LESS''), (''reason'', JStr ''Stealth junior keyword in title'')]"

text \<open>A Workday site whose first page holds all of its 20 postings.\<close>

definition workday_item :: json where
  "workday_item =
     JObj [(''title'', JStr ''Graduate Analyst''), (''externalPath'', JStr ''/job/1''),
           (''locationsText'', JStr ''London'')]"

definition workday_item_posting :: json where
  "workday_item_posting =
     JObj [(''title'', JStr ''Graduate Analyst''), (''location'', JStr ''London''),
           (''department'', JStr []),
           (''url'', JStr ''https://acme.wd3.myworkdayjobs.com/job/1''),
           (''employment_type'', JStr []), (''description'', JStr [])]"

definition workday_world :: world where
  "workday_world =
     \<lparr>http_get = (\<lambda>url. Inl (RequestError ''not found'')),
      http_post = (\<lambda>url offset.
         if url = ''https://acme.wd3.myworkdayjobs.com/wday/cxs/acme/Careers/jobs'' \<and> offset = 0
         then Inr (JObj [(''jobPostings'', JArr (replicate 20 workday_item)), (''total'', JInt 20)])
         else Inl (RequestError ''not found'')),
      urlparse = (\<lambda>url. (''acme.wd3.myworkdayjobs.com'', ''/en-US/Careers''))\<rparr>"

section \<open>Properties of the text heuristics\<close>

subsection \<open>Auxiliary facts\<close>

lemma bind_Inr [simp]: "bind (Inr x) f = f x"
  by (simp add: bind_def)

lemma bind_Inl [simp]: "bind (Inl e) f = Inl e"
  by (simp add: bind_def)

lemma or_empty_JStr [simp]: "or_empty (JStr s) = JStr s"
  by (simp add: or_empty_def py_or_def)

lemma or_empty_JNull [simp]: "or_empty JNull = JStr []"
  by (simp add: or_empty_def py_or_def)

lemma or_empty_idem [simp]: "or_empty (or_empty x) = or_empty x"
  by (simp add: or_empty_def py_or_def)

lemma lower_char_idem: "lower_char (lower_char c) = lower_char c"
proof -
  have "of_char c < (256 :: nat)" by simp
  moreover have "n < 256 \<Longrightarrow> of_char (char_of (n :: nat)) = n" for n
    by simp
  ultimately show ?thesis
    by (auto simp add: lower_char_def Let_def)
qed

lemma lower_idem [simp]: "lower (lower s) = lower s"
  by (simp add: lower_def lower_char_idem)

lemma lower_append: "lower (a @ b) = lower a @ lower b"
  by (simp add: lower_def)

lemma starts_with_iff: "starts_with k t \<longleftrightarrow> (\<exists>s. t = k @ s)"
  by (induction k t rule: starts_with.induct) auto

lemma substring_in_iff: "substring_in k t \<longleftrightarrow> (\<exists>p s. t = p @ k @ s)"
proof (induction t)
  case Nil
  then show ?case by simp
next
  case (Cons c cs)
  show ?case
  proof
    assume "substring_in k (c # cs)"
    then consider "starts_with k (c # cs)" | "substring_in k cs" by auto
    then show "\<exists>p s. c # cs = p @ k @ s"
    proof cases
      case 1
      then obtain s where "c # cs = k @ s" by (auto simp: starts_with_iff)
      then have "c # cs = [] @ k @ s" by simp
      then show ?thesis by blast
    next
      case 2
      then obtain p s where "cs = p @ k @ s" using Cons.IH by blast
      then have "c # cs = (c # p) @ k @ s" by simp
      then show ?thesis by blast
    qed
  next
    assume "\<exists>p s. c # cs = p @ k @ s"
    then obtain p s where eq: "c # cs = p @ k @ s" by blast
    show "substring_in k (c # cs)"
    proof (cases p)
      case Nil
      then have "starts_with k (c # cs)" using eq by (auto simp: starts_with_iff)
      then show ?thesis by simp
    next
      case (Cons a p')
      then have "cs = p' @ k @ s" using eq by simp
      then have "substring_in k cs" using Cons.IH by blast
      then show ?thesis by simp
    qed
  qed
qed

lemma contains_any_JStr:
  "contains_any (JStr t) ks = Inr (\<exists>k \<in> set ks. substring_in k (lower t))"
  by (simp add: contains_any_def list_ex_iff)

lemma is_uk_JStr:
  "is_uk (JStr l) = Inr (\<exists>h \<in> set UK_HINTS. substring_in h (lower (strip l)))"
  by (simp add: is_uk_def list_ex_iff)

lemma is_uk_JNull: "is_uk JNull = Inr False"
  by (simp add: is_uk_def strip_def lower_def UK_HINTS_def)

lemma is_uk_empty: "is_uk (JStr []) = Inr False"
  by (simp add: is_uk_def strip_def lower_def UK_HINTS_def)

lemma round_half_even_int: "round_half_even (of_int n) = n"
  by (simp add: round_half_even_def)

lemma binary64_int:
  assumes "0 < m" "m < 2 ^ 53"
  shows "binary64 (of_int m) = Finite (of_int m)"
proof -
  have b1: "1 \<le> bitlen m" using assms(1) by (simp add: bitlen_alt_def)
  have b2: "bitlen m \<le> 53" using assms(2) by (simp add: bitlen_le_iff_power)
  define k where "k = nat (53 - bitlen m)"
  have e: "exponent (of_int m) = bitlen m - 1"
    using assms(1) by (simp add: exponent_def)
  have u: "pow2 (max (exponent (of_int m)) (- 1022) - 52) = 1 / 2 ^ k"
    using b1 b2 by (simp add: e pow2_def k_def max_def)
  have q: "(of_int m :: rat) / (1 / 2 ^ k) = of_int (m * 2 ^ k)"
    by simp
  have v: "of_int (round_half_even (of_int m / (1 / 2 ^ k))) * (1 / 2 ^ k) = (of_int m :: rat)"
    unfolding q round_half_even_int by simp
  have "(of_int m :: rat) < 2 ^ 1024"
  proof -
    have "m < 2 ^ 1024" using assms(2) by (rule less_trans) simp
    then show ?thesis by (metis of_int_less_numeral_power_cancel_iff)
  qed
  then have lt: "\<not> pow2 1024 \<le> (of_int m :: rat)" by (simp add: pow2_def)
  show ?thesis
    unfolding binary64_def Let_def u v using assms(1) lt by simp
qed


lemmas years_defs =
  extract_years_def lower_def lower_char_def RANGE_PATTERN_def UPTO_PATTERN_def
  PLUS_PATTERN_def number_def Plus_def Opt_def lits_def isdigit_def isspace_def
  float_group_def py_float_def decimal_value_def digits_value_def

lemma years_3_5: "extract_years (JStr ''3-5 years'') = Inr (Some (Finite 3), Some (Finite 5))"
  using binary64_int [of 3] binary64_int [of 5] by (simp add: years_defs)

lemma years_up_to_2: "extract_years (JStr ''up to 2 years'') = Inr (Some (Finite 0), Some (Finite 2))"
  using binary64_int [of 2] by (simp add: years_defs)

lemma years_5_plus: "extract_years (JStr ''5+ years'') = Inr (Some (Finite 5), None)"
  using binary64_int [of 5] by (simp add: years_defs)

lemma years_none: "extract_years (JStr ''no experience needed'') = Inr (None, None)"
  by (simp add: years_defs)

lemma years_7_10: "extract_years (JStr ''7-10 years'') = Inr (Some (Finite 7), Some (Finite 10))"
  using binary64_int [of 7] binary64_int [of 10] by (simp add: years_defs)

lemma years_all_three:
  "extract_years (JStr ''2-3 years, up to 4 years, 5+ years'')
     = Inr (Some (Finite 2), Some (Finite 3))"
  using binary64_int [of 2] binary64_int [of 3] by (simp add: years_defs)

lemma years_last_two:
  "extract_years (JStr ''6+ years, up to 4 years'') = Inr (Some (Finite 0), Some (Finite 4))"
  using binary64_int [of 4] by (simp add: years_defs)

subsection \<open>The bucket of a posting\<close>

text \<open>
  C1. A title that contains a senior-exclusion keyword, in any mix of upper and lower case
  and at any position, is bucketed \<^verbatim>\<open>("EXCLUDE", "Senior keyword in title")\<close>, whatever
  the location and the description are: \<open>k\<close> is the occurrence of the keyword in the
  title, \<open>pre\<close> and \<open>post\<close> are the text before and after it.
\<close>

theorem bucket_job_senior_title:
  assumes "lower k \<in> set SENIOR_EXCLUDE_KEYWORDS"
  shows "bucket_job (JStr (pre @ k @ post)) location description
           = Inr (''EXCLUDE'', ''Senior keyword in title'')"
proof -
  have "lower (pre @ k @ post) = lower pre @ lower k @ lower post"
    by (simp add: lower_append)
  then have "substring_in (lower k) (lower (pre @ k @ post))"
    unfolding substring_in_iff by blast
  with assms have "\<exists>x \<in> set SENIOR_EXCLUDE_KEYWORDS. substring_in x (lower (pre @ k @ post))"
    by blast
  then show ?thesis
    by (simp add: bucket_job_def contains_any_JStr)
qed

theorem bucket_job_senior_title_witness:
  "lower ''SeNioR'' \<in> set SENIOR_EXCLUDE_KEYWORDS
   \<and> bucket_job (JStr ''Very SeNioR Engineer'') JNull (JInt 3)
       = Inr (''EXCLUDE'', ''Senior keyword in title'')"
proof -
  have h: "lower ''SeNioR'' \<in> set SENIOR_EXCLUDE_KEYWORDS"
    by code_simp
  show ?thesis
    using h bucket_job_senior_title [OF h, of "''Very ''" "'' Engineer''" JNull "JInt 3"]
    by simp
qed

text \<open>
  C6. When the title holds no senior-exclusion keyword and the location, trimmed and
  lower-cased, holds none of the UK hints, the result is
  \<^verbatim>\<open>("IGNORE", "Not UK location")\<close> for every description; so it is for the unknown
  location (\<^verbatim>\<open>None\<close>) and for the empty one.
\<close>

theorem bucket_job_not_uk:
  assumes "\<forall>k \<in> set SENIOR_EXCLUDE_KEYWORDS. \<not> substring_in k (lower title)"
  shows "((\<forall>h \<in> set UK_HINTS. \<not> substring_in h (lower (strip l)))
            \<longrightarrow> bucket_job (JStr title) (JStr l) description
                  = Inr (''IGNORE'', ''Not UK location''))
         \<and> bucket_job (JStr title) JNull description = Inr (''IGNORE'', ''Not UK location'')
         \<and> bucket_job (JStr title) (JStr []) description
             = Inr (''IGNORE'', ''Not UK location'')"
proof -
  have senior: "contains_any (JStr (lower title)) SENIOR_EXCLUDE_KEYWORDS = Inr False"
    using assms by (simp add: contains_any_JStr)
  have ignore: "bucket_job (JStr title) loc description = Inr (''IGNORE'', ''Not UK location'')"
    if "is_uk loc = Inr False" for loc
    using that senior by (simp add: bucket_job_def)
  have a: "(\<forall>h \<in> set UK_HINTS. \<not> substring_in h (lower (strip l)))
            \<longrightarrow> bucket_job (JStr title) (JStr l) description
                  = Inr (''IGNORE'', ''Not UK location'')"
    by (simp add: ignore is_uk_JStr)
  show ?thesis
    using a ignore [OF is_uk_JNull] ignore [OF is_uk_empty] by blast
qed

theorem bucket_job_not_uk_witness:
  "bucket_job (JStr ''Graduate Analyst'') (JStr '' Paris, France '') (JStr ''1+ years'')
       = Inr (''IGNORE'', ''Not UK location'')
   \<and> bucket_job (JStr ''Graduate Analyst'') JNull (JStr ''1+ years'')
       = Inr (''IGNORE'', ''Not UK location'')"
proof -
  have t: "\<forall>k \<in> set SENIOR_EXCLUDE_KEYWORDS. \<not> substring_in k (lower ''Graduate Analyst'')"
    by code_simp
  have l: "\<forall>h \<in> set UK_HINTS. \<not> substring_in h (lower (strip '' Paris, France ''))"
    by code_simp
  show ?thesis
    using t l bucket_job_not_uk [OF t, of "'' Paris, France ''" "JStr ''1+ years''"]
    by simp
qed

text \<open>
  C7. When the title holds no senior-exclusion keyword, the location is a UK one and
  \<^verbatim>\<open>extract_years\<close> finds in the description a minimum of at least 5, the result
  is \<^verbatim>\<open>("EXCLUDE", "5+ years mentioned")\<close>.
\<close>

theorem bucket_job_five_years:
  assumes "\<forall>k \<in> set SENIOR_EXCLUDE_KEYWORDS. \<not> substring_in k (lower title)"
    and "is_uk location = Inr True"
    and "extract_years description = Inr (Some y_min, y_max)"
    and "float_ge y_min 5"
  shows "bucket_job (JStr title) location description = Inr (''EXCLUDE'', ''5+ years mentioned'')"
proof -
  have "extract_years (or_empty description) = extract_years description"
    by (simp add: extract_years_def)
  with assms show ?thesis
    by (simp add: bucket_job_def contains_any_JStr)
qed

theorem bucket_job_five_years_witness:
  "is_uk (JStr ''London, UK'') = Inr True
   \<and> extract_years (JStr ''5+ years'') = Inr (Some (Finite 5), None)
   \<and> extract_years (JStr ''7-10 years'') = Inr (Some (Finite 7), Some (Finite 10))
   \<and> float_ge (Finite 5) 5 \<and> float_ge (Finite 7) 5
   \<and> bucket_job (JStr ''Graduate Analyst'') (JStr ''London, UK'') (JStr ''5+ years'')
       = Inr (''EXCLUDE'', ''5+ years mentioned'')
   \<and> bucket_job (JStr ''Graduate Analyst'') (JStr ''London, UK'') (JStr ''7-10 years'')
       = Inr (''EXCLUDE'', ''5+ years mentioned'')"
proof -
  have t: "\<forall>k \<in> set SENIOR_EXCLUDE_KEYWORDS. \<not> substring_in k (lower ''Graduate Analyst'')"
    by code_simp
  have l: "is_uk (JStr ''London, UK'') = Inr True"
    by code_simp
  have g5: "float_ge (Finite 5) 5" and g7: "float_ge (Finite 7) 5"
    by simp_all
  show ?thesis
    using t l g5 g7 years_5_plus years_7_10
      bucket_job_five_years [OF t l years_5_plus g5]
      bucket_job_five_years [OF t l years_7_10 g7]
    by simp
qed

text \<open>
  C5. \<^verbatim>\<open>extract_years\<close> on the four texts of the specification; and the order of the
  three patterns: a text on which all three match gives the result of the first, a
  text on which the last two match gives the result of the second.
\<close>

theorem extract_years_examples:
  "extract_years (JStr ''3-5 years'') = Inr (Some (Finite 3), Some (Finite 5))
   \<and> extract_years (JStr ''up to 2 years'') = Inr (Some (Finite 0), Some (Finite 2))
   \<and> extract_years (JStr ''5+ years'') = Inr (Some (Finite 5), None)
   \<and> extract_years (JStr ''no experience needed'') = Inr (None, None)
   \<and> extract_years (JStr ''2-3 years, up to 4 years, 5+ years'')
       = Inr (Some (Finite 2), Some (Finite 3))
   \<and> extract_years (JStr ''6+ years, up to 4 years'') = Inr (Some (Finite 0), Some (Finite 4))"
  using years_3_5 years_up_to_2 years_5_plus years_none years_all_three years_last_two
  by blast

section \<open>Properties of the pipeline\<close>

lemma bind_eq_Inr: "bind m f = Inr y \<longleftrightarrow> (\<exists>x. m = Inr x \<and> f x = Inr y)"
  by (cases m) (simp_all add: bind_def)

lemma dict_get_Inr: "dict_get j k d = Inr v \<Longrightarrow> \<exists>kvs. j = JObj kvs"
  by (cases j) simp_all

lemma bucket_job_kept:
  assumes "bucket_job t l d = Inr (b, reason)" and "b \<noteq> ''EXCLUDE''" and "b \<noteq> ''IGNORE''"
  shows "(b = ''HIGH'' \<or> b = ''LESS'') \<and> is_uk l = Inr True"
  using assms
  by (auto simp add: bucket_job_def bind_eq_Inr split: if_splits prod.splits)

text \<open>A row that \<^verbatim>\<open>main\<close> appends: its cells and where they come from.\<close>

lemma job_row_Some:
  assumes "job_row name j = Inr (Some r)"
  shows "\<exists>d b reason.
           bucket_job (cell r ''title'') (cell r ''location'') d = Inr (b, reason)
           \<and> (b = ''HIGH'' \<or> b = ''LESS'')
           \<and> is_uk (cell r ''location'') = Inr True
           \<and> cell r ''bucket'' = JStr b \<and> cell r ''reason'' = JStr reason
           \<and> cell r ''employer'' = JStr name
           \<and> keys_of r = COLUMNS"
proof -
  from assms obtain t l d b reason dep et u where
    bj: "bucket_job t l d = Inr (b, reason)" and
    keep: "b \<noteq> ''EXCLUDE''" "b \<noteq> ''IGNORE''" and
    r: "r = JObj [(''employer'', JStr name), (''title'', t), (''location'', l),
                  (''department'', dep), (''employment_type'', et), (''url'', u),
                  (''bucket'', JStr b), (''reason'', JStr reason)]"
    by (auto simp add: job_row_def bind_eq_Inr split: if_splits prod.splits)
  have keys: "keys_of r = COLUMNS"
    unfolding r by (simp add: dict_keys_def COLUMNS_def)
  from bucket_job_kept [OF bj keep] bj keys show ?thesis
    unfolding r by (auto simp add: cell_def)
qed

lemma classify_rows:
  assumes "\<forall>r \<in> set rows. P r" and "\<And>j r. job_row name j = Inr (Some r) \<Longrightarrow> P r"
  shows "\<forall>r \<in> set (fst (classify name jobs rows)). P r"
  using assms(1)
proof (induction jobs arbitrary: rows)
  case Nil
  then show ?case by simp
next
  case (Cons j js)
  show ?case
  proof (cases "job_row name j")
    case (Inl e)
    with Cons.prems show ?thesis by simp
  next
    case (Inr ro)
    show ?thesis
    proof (cases ro)
      case None
      with Inr Cons show ?thesis by simp
    next
      case (Some r)
      with Inr assms(2) have "P r" by blast
      with Cons.prems have "\<forall>x \<in> set (rows @ [r]). P x" by simp
      from Cons.IH [OF this] Inr Some show ?thesis by simp
    qed
  qed
qed

lemma process_employer_rows:
  assumes "\<forall>r \<in> set (fst st). P r"
    and "\<And>jobs j r. call_adapter w emp = Some (Inr jobs)
           \<Longrightarrow> job_row (emp_name emp) j = Inr (Some r) \<Longrightarrow> P r"
  shows "\<forall>r \<in> set (fst (process_employer w st emp)). P r"
proof (cases st)
  case (Pair rows out)
  with assms(1) have rows: "\<forall>r \<in> set rows. P r" by simp
  show ?thesis
  proof (cases "call_adapter w emp")
    case None
    with Pair rows show ?thesis by simp
  next
    case (Some res)
    show ?thesis
    proof (cases res)
      case (Inl e)
      with Some Pair rows show ?thesis by simp
    next
      case (Inr jobs)
      have "\<forall>r \<in> set (fst (classify (emp_name emp) jobs rows)). P r"
        by (rule classify_rows [OF rows]) (rule assms(2), use Some Inr in simp)
      with Some Inr Pair show ?thesis
        by (auto split: prod.splits option.splits)
    qed
  qed
qed

lemma foldl_process_rows:
  assumes "\<forall>r \<in> set (fst st). P r"
    and "\<And>emp jobs j r. emp \<in> set emps \<Longrightarrow> call_adapter w emp = Some (Inr jobs)
           \<Longrightarrow> job_row (emp_name emp) j = Inr (Some r) \<Longrightarrow> P r"
  shows "\<forall>r \<in> set (fst (foldl (process_employer w) st emps)). P r"
  using assms
proof (induction emps arbitrary: st)
  case Nil
  then show ?case by simp
next
  case (Cons emp emps)
  have step: "\<forall>r \<in> set (fst (process_employer w st emp)). P r"
  proof (rule process_employer_rows)
    show "\<forall>r \<in> set (fst st). P r" by (rule Cons.prems(1))
  next
    fix jobs j r
    assume "call_adapter w emp = Some (Inr jobs)" "job_row (emp_name emp) j = Inr (Some r)"
    then show "P r" using Cons.prems(2) [of emp jobs j r] by simp
  qed
  have rest: "\<And>e jobs j r. e \<in> set emps \<Longrightarrow> call_adapter w e = Some (Inr jobs)
           \<Longrightarrow> job_row (emp_name e) j = Inr (Some r) \<Longrightarrow> P r"
    using Cons.prems(2) by auto
  from Cons.IH [OF step rest] show ?case by simp
qed

lemma collect_rows:
  assumes "\<And>emp jobs j r. emp \<in> set emps \<Longrightarrow> call_adapter w emp = Some (Inr jobs)
           \<Longrightarrow> job_row (emp_name emp) j = Inr (Some r) \<Longrightarrow> P r"
  shows "\<forall>r \<in> set (fst (collect w emps)). P r"
  unfolding collect_def by (rule foldl_process_rows) (use assms in auto)

lemma body_main: "body (fst (main w emps)) = sort_key row_key (fst (collect w emps))"
  by (cases "collect w emps")
     (auto simp add: main_def Let_def DataFrame_def sort_values_def)

lemma set_body_main: "set (body (fst (main w emps))) = set (fst (collect w emps))"
  by (simp add: body_main)

text \<open>
  C2. Every row that a run collects, and so every row of the table it writes, carries
  the bucket and the reason that \<^verbatim>\<open>bucket_job\<close> gave for its title and location (and
  some description), and that bucket is \<^verbatim>\<open>HIGH\<close> or \<^verbatim>\<open>LESS\<close>: no posting
  bucketed \<^verbatim>\<open>EXCLUDE\<close> or \<^verbatim>\<open>IGNORE\<close> is appended.
\<close>

theorem kept_rows_high_or_less:
  "\<forall>r \<in> set (fst (collect w emps)) \<union> set (body (fst (main w emps))).
     \<exists>d b reason.
       bucket_job (cell r ''title'') (cell r ''location'') d = Inr (b, reason)
       \<and> cell r ''bucket'' = JStr b \<and> cell r ''reason'' = JStr reason
       \<and> (b = ''HIGH'' \<or> b = ''LESS'')"
proof -
  have "\<forall>r \<in> set (fst (collect w emps)).
     \<exists>d b reason.
       bucket_job (cell r ''title'') (cell r ''location'') d = Inr (b, reason)
       \<and> cell r ''bucket'' = JStr b \<and> cell r ''reason'' = JStr reason
       \<and> (b = ''HIGH'' \<or> b = ''LESS'')"
  proof (rule collect_rows)
    fix emp :: employer and jobs j r
    assume "job_row (emp_name emp) j = Inr (Some r)"
    from job_row_Some [OF this] show "\<exists>d b reason.
       bucket_job (cell r ''title'') (cell r ''location'') d = Inr (b, reason)
       \<and> cell r ''bucket'' = JStr b \<and> cell r ''reason'' = JStr reason
       \<and> (b = ''HIGH'' \<or> b = ''LESS'')"
      by blast
  qed
  then show ?thesis by (simp add: set_body_main)
qed

text \<open>
  C10. The location of every row that a run collects, and of every row of the table it
  writes, satisfies \<^verbatim>\<open>is_uk\<close>.
\<close>

theorem kept_rows_uk:
  "\<forall>r \<in> set (fst (collect w emps)) \<union> set (body (fst (main w emps))).
     is_uk (cell r ''location'') = Inr True"
proof -
  have "\<forall>r \<in> set (fst (collect w emps)). is_uk (cell r ''location'') = Inr True"
  proof (rule collect_rows)
    fix emp :: employer and jobs j r
    assume "job_row (emp_name emp) j = Inr (Some r)"
    from job_row_Some [OF this] show "is_uk (cell r ''location'') = Inr True"
      by blast
  qed
  then show ?thesis by (simp add: set_body_main)
qed

lemma example_broken: "call_adapter example_world broken = Some (Inl (RequestError ''connection refused''))"
  by code_simp

lemma example_collect:
  "collect example_world [broken, acme]
     = ([analyst_row, officer_row],
        [Failed ''Broken'' (RequestError ''connection refused''), Kept ''Acme'' 2])"
  by code_simp

lemma example_main:
  "main example_world [broken, acme]
     = (\<lparr>columns = COLUMNS, body = [analyst_row, officer_row]\<rparr>,
        [Failed ''Broken'' (RequestError ''connection refused''), Kept ''Acme'' 2, Wrote 2])"
  by code_simp

lemma example_collect_broken:
  "collect example_world [broken] = ([], [Failed ''Broken'' (RequestError ''connection refused'')])"
  by code_simp


theorem kept_rows_high_or_less_witness:
  "analyst_row \<in> set (body (fst (main example_world [broken, acme])))
   \<and> (\<exists>d b reason.
         bucket_job (cell analyst_row ''title'') (cell analyst_row ''location'') d = Inr (b, reason)
         \<and> cell analyst_row ''bucket'' = JStr b \<and> cell analyst_row ''reason'' = JStr reason
         \<and> (b = ''HIGH'' \<or> b = ''LESS''))"
proof -
  have m: "analyst_row \<in> set (body (fst (main example_world [broken, acme])))"
    by (simp add: example_main)
  then have "analyst_row \<in> set (fst (collect example_world [broken, acme]))
                \<union> set (body (fst (main example_world [broken, acme])))"
    by simp
  from kept_rows_high_or_less [rule_format, OF this] m show ?thesis by blast
qed

theorem kept_rows_uk_witness:
  "officer_row \<in> set (fst (collect example_world [broken, acme]))
   \<and> is_uk (cell officer_row ''location'') = Inr True"
proof -
  have m: "officer_row \<in> set (fst (collect example_world [broken, acme]))"
    by (simp add: example_collect)
  then have "officer_row \<in> set (fst (collect example_world [broken, acme]))
                \<union> set (body (fst (main example_world [broken, acme])))"
    by simp
  from kept_rows_uk [rule_format, OF this] m show ?thesis by blast
qed

lemma process_employer_fst:
  "fst (process_employer w (rows, out) emp) = fst (process_employer w (rows, out') emp)"
  by (auto split: option.splits sum.splits prod.splits)

lemma foldl_process_fst:
  "fst (foldl (process_employer w) (rows, out) emps)
     = fst (foldl (process_employer w) (rows, out') emps)"
proof (induction emps arbitrary: rows out out')
  case Nil
  then show ?case by simp
next
  case (Cons emp emps)
  obtain r1 o1 where 1: "process_employer w (rows, out) emp = (r1, o1)"
    by (cases "process_employer w (rows, out) emp")
  obtain r2 o2 where 2: "process_employer w (rows, out') emp = (r2, o2)"
    by (cases "process_employer w (rows, out') emp")
  from process_employer_fst [of w rows out emp out'] 1 2 have "r1 = r2" by simp
  with Cons.IH [of r1 o1 o2] 1 2 show ?case by simp
qed

lemma process_employer_failed:
  assumes "call_adapter w emp = Some (Inl e)"
  shows "process_employer w (rows, out) emp = (rows, out @ [Failed (emp_name emp) e])"
  using assms by simp

lemma collect_skip_failed:
  assumes "call_adapter w emp = Some (Inl e)"
  shows "fst (collect w (before @ emp # after)) = fst (collect w (before @ after))"
proof -
  obtain rows out where b: "foldl (process_employer w) ([], []) before = (rows, out)"
    by (cases "foldl (process_employer w) ([], []) before")
  have "fst (collect w (before @ emp # after))
          = fst (foldl (process_employer w) (rows, out @ [Failed (emp_name emp) e]) after)"
    using assms b by (simp add: collect_def)
  also have "\<dots> = fst (foldl (process_employer w) (rows, out) after)"
    by (rule foldl_process_fst)
  also have "\<dots> = fst (collect w (before @ after))"
    using b by (simp add: collect_def)
  finally show ?thesis .
qed

lemma fst_main:
  "fst (main w emps)
     = sort_values (if fst (collect w emps) = [] then \<lparr>columns = COLUMNS, body = []\<rparr>
                    else DataFrame (fst (collect w emps)))"
  by (cases "collect w emps") (simp add: main_def Let_def DataFrame_def)

lemma snd_main:
  "snd (main w emps) = snd (collect w emps) @ [Wrote (length (fst (collect w emps)))]"
  by (cases "collect w emps") (simp add: main_def Let_def DataFrame_def sort_values_def)

text \<open>
  C3. When the adapter call for an employer raises \<open>e\<close>, the pass for that employer
  leaves the rows as they are and prints the employer's name with \<open>e\<close>; the rows and
  the table of the run are those of the run without that employer, wherever it stands in
  the list. With a second employer after the failing one, the failure is the first line
  printed, the run goes on to its last line (the number of rows written), and every row
  of the table is a row of the second employer.
\<close>

theorem adapter_failure_isolated:
  assumes "call_adapter w emp = Some (Inl e)"
  shows "process_employer w (rows, out) emp = (rows, out @ [Failed (emp_name emp) e])
         \<and> fst (collect w (before @ emp # after)) = fst (collect w (before @ after))
         \<and> fst (main w (before @ emp # after)) = fst (main w (before @ after))
         \<and> snd (main w [emp, emp2])
             = Failed (emp_name emp) e # tl (snd (main w [emp, emp2]))
         \<and> last (snd (main w [emp, emp2])) = Wrote (length (body (fst (main w [emp2]))))
         \<and> fst (main w [emp, emp2]) = fst (main w [emp2])
         \<and> (\<forall>r \<in> set (body (fst (main w [emp, emp2]))). cell r ''employer'' = JStr (emp_name emp2))"
proof -
  have skip: "fst (collect w (bs @ emp # as)) = fst (collect w (bs @ as))" for bs as
    using assms by (rule collect_skip_failed)
  have tab: "fst (main w (bs @ emp # as)) = fst (main w (bs @ as))" for bs as
    by (simp add: fst_main skip)
  have two: "fst (main w [emp, emp2]) = fst (main w [emp2])"
    using tab [of "[]" "[emp2]"] by simp
  have rows2: "fst (collect w [emp, emp2]) = fst (collect w [emp2])"
    using skip [of "[]" "[emp2]"] by simp
  have "\<forall>r \<in> set (fst (collect w [emp2])). cell r ''employer'' = JStr (emp_name emp2)"
  proof (rule collect_rows)
    fix x :: employer and jobs j r
    assume "x \<in> set [emp2]" and "job_row (emp_name x) j = Inr (Some r)"
    then have "job_row (emp_name emp2) j = Inr (Some r)" by simp
    from job_row_Some [OF this] show "cell r ''employer'' = JStr (emp_name emp2)" by blast
  qed
  then have only: "\<forall>r \<in> set (body (fst (main w [emp, emp2]))).
                     cell r ''employer'' = JStr (emp_name emp2)"
    by (simp add: set_body_main rows2)
  have out: "snd (collect w [emp, emp2])
               = Failed (emp_name emp) e # tl (snd (collect w [emp, emp2]))"
    using assms
    by (auto simp add: collect_def split: option.splits sum.splits prod.splits)
  have first: "snd (main w [emp, emp2]) = Failed (emp_name emp) e # tl (snd (main w [emp, emp2]))"
    using out by (simp add: snd_main) (metis list.sel(3) append_Cons)
  have lst: "last (snd (main w [emp, emp2])) = Wrote (length (body (fst (main w [emp2]))))"
    by (simp add: snd_main rows2 body_main)
  show ?thesis
    using process_employer_failed [OF assms] skip tab two only first lst by blast
qed

theorem adapter_failure_isolated_witness:
  "call_adapter example_world broken = Some (Inl (RequestError ''connection refused''))
   \<and> fst (main example_world [broken, acme]) = fst (main example_world [acme])
   \<and> body (fst (main example_world [broken, acme])) = [analyst_row, officer_row]
   \<and> snd (main example_world [broken, acme])
       = [Failed ''Broken'' (RequestError ''connection refused''), Kept ''Acme'' 2, Wrote 2]"
proof -
  from adapter_failure_isolated [OF example_broken, of "[]" "[]" "[]" "[]" acme]
  have same: "fst (main example_world [broken, acme]) = fst (main example_world [acme])"
    by blast
  show ?thesis
    by (intro conjI) (rule example_broken, rule same, simp_all add: example_main)
qed

lemma columns_of_rows:
  assumes "rows \<noteq> []" and "\<forall>r \<in> set rows. keys_of r = COLUMNS"
  shows "columns (DataFrame rows) = COLUMNS"
proof -
  have d: "distinct COLUMNS" by (simp add: COLUMNS_def)
  have "remdups (rev (concat (map keys_of rows))) = rev COLUMNS"
    using assms
  proof (induction rows)
    case Nil
    then show ?case by simp
  next
    case (Cons r rows)
    show ?case
    proof (cases "rows = []")
      case True
      with Cons.prems d show ?thesis by (simp add: distinct_remdups_id)
    next
      case False
      with Cons have ih: "remdups (rev (concat (map keys_of rows))) = rev COLUMNS" by simp
      then have "set (rev (concat (map keys_of rows))) = set COLUMNS"
        by (metis set_remdups set_rev)
      then have sub: "set (rev (concat (map keys_of rows))) \<subseteq> set (rev COLUMNS)"
        by simp
      have "remdups (rev (concat (map keys_of (r # rows))))
              = remdups (rev (concat (map keys_of rows)) @ rev COLUMNS)"
        using Cons.prems by simp
      also have "\<dots> = remdups (rev COLUMNS)"
        by (rule remdups_append [OF sub])
      finally show ?thesis using d by (simp add: distinct_remdups_id)
    qed
  qed
  then show ?thesis by (simp add: DataFrame_def)
qed


lemma collect_keys: "\<forall>r \<in> set (fst (collect w emps)). keys_of r = COLUMNS"
proof (rule collect_rows)
  fix emp :: employer and jobs j r
  assume "job_row (emp_name emp) j = Inr (Some r)"
  from job_row_Some [OF this] show "keys_of r = COLUMNS" by blast
qed

lemma columns_main: "columns (fst (main w emps)) = COLUMNS"
proof (cases "fst (collect w emps) = []")
  case True
  then show ?thesis by (simp add: fst_main sort_values_def)
next
  case False
  from columns_of_rows [OF False collect_keys] show ?thesis
    using False by (simp add: fst_main sort_values_def)
qed

text \<open>
  C9. The table that \<^verbatim>\<open>main\<close> writes has the eight fixed columns; its rows are the
  collected rows, reordered so that the keys (bucket, employer, title) ascend, where
  bucket and employer are texts in every row; and when no row was collected the table
  is the header alone.
\<close>

theorem output_sorted_with_header:
  "columns (fst (main w emps)) = COLUMNS
   \<and> sorted (map row_key (body (fst (main w emps))))
   \<and> mset (body (fst (main w emps))) = mset (fst (collect w emps))
   \<and> (\<forall>r \<in> set (body (fst (main w emps))).
         \<exists>b e. cell r ''bucket'' = JStr b \<and> cell r ''employer'' = JStr e)
   \<and> (fst (collect w emps) = [] \<longrightarrow> fst (main w emps) = \<lparr>columns = COLUMNS, body = []\<rparr>)"
proof -
  have texts: "\<forall>r \<in> set (fst (collect w emps)).
                 \<exists>b e. cell r ''bucket'' = JStr b \<and> cell r ''employer'' = JStr e"
  proof (rule collect_rows)
    fix emp :: employer and jobs j r
    assume "job_row (emp_name emp) j = Inr (Some r)"
    from job_row_Some [OF this]
    show "\<exists>b e. cell r ''bucket'' = JStr b \<and> cell r ''employer'' = JStr e" by blast
  qed
  have empty: "fst (collect w emps) = [] \<longrightarrow> fst (main w emps) = \<lparr>columns = COLUMNS, body = []\<rparr>"
    by (simp add: fst_main sort_values_def)
  show ?thesis
    using columns_main texts empty by (simp add: body_main)
qed

theorem output_sorted_with_header_witness:
  "fst (collect example_world [broken]) = []
   \<and> fst (main example_world [broken]) = \<lparr>columns = COLUMNS, body = []\<rparr>
   \<and> body (fst (main example_world [broken, acme])) = [analyst_row, officer_row]
   \<and> sorted (map row_key [analyst_row, officer_row])"
proof -
  have e: "fst (collect example_world [broken]) = []"
    by (simp add: example_collect_broken)
  from output_sorted_with_header [of example_world "[broken]"] e
  have h: "fst (main example_world [broken]) = \<lparr>columns = COLUMNS, body = []\<rparr>"
    by blast
  from output_sorted_with_header [of example_world "[broken, acme]"]
  have s: "sorted (map row_key (body (fst (main example_world [broken, acme]))))"
    by blast
  have b: "body (fst (main example_world [broken, acme])) = [analyst_row, officer_row]"
    by (simp add: example_main)
  from e h b s show ?thesis by simp
qed

section \<open>Properties of the Greenhouse adapter\<close>

lemma map_result_all2:
  "map_result f xs = Inr ys \<longleftrightarrow> list_all2 (\<lambda>x y. f x = Inr y) xs ys"
proof (induction xs arbitrary: ys)
  case Nil
  then show ?case by auto
next
  case (Cons x xs)
  show ?case
    by (cases ys) (auto simp add: bind_eq_Inr Cons.IH)
qed

lemma map_result_set:
  assumes "map_result f xs = Inr ys" and "y \<in> set ys"
  shows "\<exists>x \<in> set xs. f x = Inr y"
  using assms
proof (induction xs arbitrary: ys)
  case Nil
  then show ?case by simp
next
  case (Cons x xs)
  then show ?case by (auto simp add: bind_eq_Inr)
qed

lemma map_result_total:
  assumes "\<forall>x \<in> set xs. \<exists>y. f x = Inr y"
  shows "\<exists>ys. map_result f xs = Inr ys"
  using assms
proof (induction xs)
  case Nil
  then show ?case by simp
next
  case (Cons x xs)
  then obtain y ys where "f x = Inr y" "map_result f xs = Inr ys" by auto
  then show ?case by simp
qed

lemma key_in_dict: "key_in k (JObj kvs) = Inr (map_of kvs k \<noteq> None)"
  by (simp add: map_of_eq_None_iff)

lemma greenhouse_posting_department:
  assumes "greenhouse_posting n j = Inr p"
  shows "cell p ''department'' = n"
  using assms by (auto simp add: greenhouse_posting_def bind_eq_Inr cell_def)

lemma greenhouse_location_dict: "\<exists>l. greenhouse_location (JObj kv) = Inr l"
proof -
  obtain loc where loc: "dict_get (JObj kv) ''location'' JNull = Inr loc" by simp
  show ?thesis
  proof (cases loc)
    case (JObj lkv)
    then have "\<exists>d. py_or loc (JObj []) = JObj d" by (simp add: py_or_def)
    then obtain d where "py_or loc (JObj []) = JObj d" ..
    with loc JObj show ?thesis unfolding greenhouse_location_def by simp
  qed (use loc in \<open>simp_all add: greenhouse_location_def\<close>)
qed

lemma greenhouse_posting_dict: "\<exists>p. greenhouse_posting n (JObj kv) = Inr p"
proof -
  obtain l where "greenhouse_location (JObj kv) = Inr l"
    using greenhouse_location_dict by blast
  then show ?thesis by (simp add: greenhouse_posting_def)
qed

lemma flat_jobs_total:
  "\<exists>ps. map_result (greenhouse_posting n) (map JObj js) = Inr ps"
  by (rule map_result_total) (auto simp add: greenhouse_posting_dict)

lemma department_postings_tagged:
  assumes "department_postings d = Inr ps"
  shows "\<forall>p \<in> set ps. dict_get d ''name'' (JStr []) = Inr (cell p ''department'')"
proof -
  from assms obtain n js jl where
    n: "dict_get d ''name'' (JStr []) = Inr n" and
    ps: "map_result (greenhouse_posting n) jl = Inr ps"
    by (auto simp add: department_postings_def bind_eq_Inr)
  from ps have "\<forall>p \<in> set ps. \<exists>j. greenhouse_posting n j = Inr p"
    by (blast dest: map_result_set)
  with n show ?thesis by (auto dest: greenhouse_posting_department)
qed

lemma department_of_postings:
  "\<exists>ps. department_postings (department_of d) = Inr ps \<and> length ps = length (snd d)
        \<and> (\<forall>p \<in> set ps. cell p ''department'' = fst d)"
proof -
  obtain ps where ps: "map_result (greenhouse_posting (fst d)) (map JObj (snd d)) = Inr ps"
    using flat_jobs_total by blast
  then have dp: "department_postings (department_of d) = Inr ps"
    by (simp add: department_postings_def department_of_def)
  from ps have "length ps = length (snd d)"
    by (auto simp add: map_result_all2 dest: list_all2_lengthD)
  moreover from department_postings_tagged [OF dp]
  have "\<forall>p \<in> set ps. cell p ''department'' = fst d"
    by (simp add: department_of_def)
  ultimately show ?thesis using dp by blast
qed

lemma map_result_total_rel:
  assumes "\<forall>x \<in> set xs. \<exists>y. f x = Inr y \<and> Q x y"
  shows "\<exists>ys. map_result f xs = Inr ys \<and> list_all2 Q xs ys"
  using assms
proof (induction xs)
  case Nil
  then show ?case by simp
next
  case (Cons x xs)
  then obtain y ys where "f x = Inr y" "Q x y" "map_result f xs = Inr ys" "list_all2 Q xs ys"
    by auto
  then have "map_result f (x # xs) = Inr (y # ys) \<and> list_all2 Q (x # xs) (y # ys)"
    by simp
  then show ?case by blast
qed

lemma map_result_map: "map_result f (map g xs) = map_result (\<lambda>x. f (g x)) xs"
  by (induction xs) simp_all

lemma length_concat_all2:
  assumes "list_all2 (\<lambda>d ps. length ps = length (snd d) \<and> R d ps) ds pss"
  shows "length (concat pss) = sum_list (map (length \<circ> snd) ds)"
  using assms by (induction ds pss rule: list_all2_induct) simp_all

lemma concat_member_all2:
  assumes "list_all2 Q ds pss" and "p \<in> set (concat pss)"
  shows "\<exists>d \<in> set ds. \<exists>ps. Q d ps \<and> p \<in> set ps"
  using assms by (induction ds pss rule: list_all2_induct) auto

lemma greenhouse_well_formed:
  "\<exists>flat grouped.
      greenhouse_jobs (JObj [(''jobs'', JArr (map JObj js))]) = Inr flat
    \<and> greenhouse_jobs (JObj [(''departments'', JArr (map department_of ds))]) = Inr grouped
    \<and> greenhouse_jobs (JObj [(''jobs'', JArr (map JObj js)),
                              (''departments'', JArr (map department_of ds))])
        = Inr (flat @ grouped)
    \<and> length flat = length js
    \<and> (\<forall>p \<in> set flat. cell p ''department'' = JStr [])
    \<and> length grouped = sum_list (map (length \<circ> snd) ds)
    \<and> (\<forall>p \<in> set grouped. \<exists>d \<in> set ds. cell p ''department'' = fst d)"
proof -
  obtain flat where flat: "map_result (greenhouse_posting (JStr [])) (map JObj js) = Inr flat"
    using flat_jobs_total by blast
  then have len: "length flat = length js"
    by (auto simp add: map_result_all2 dest: list_all2_lengthD)
  have tag: "\<forall>p \<in> set flat. cell p ''department'' = JStr []"
    using flat by (blast dest: map_result_set greenhouse_posting_department)
  have "\<forall>d \<in> set ds. \<exists>ps. department_postings (department_of d) = Inr ps
          \<and> (length ps = length (snd d) \<and> (\<forall>p \<in> set ps. cell p ''department'' = fst d))"
    using department_of_postings by blast
  from map_result_total_rel [OF this] obtain pss where
    pss: "map_result (\<lambda>d. department_postings (department_of d)) ds = Inr pss" and
    rel: "list_all2 (\<lambda>d ps. length ps = length (snd d)
                      \<and> (\<forall>p \<in> set ps. cell p ''department'' = fst d)) ds pss"
    by blast
  have glen: "length (concat pss) = sum_list (map (length \<circ> snd) ds)"
    using rel by (rule length_concat_all2)
  have gtag: "\<forall>p \<in> set (concat pss). \<exists>d \<in> set ds. cell p ''department'' = fst d"
    using concat_member_all2 [OF rel] by blast
  have a: "greenhouse_jobs (JObj [(''jobs'', JArr (map JObj js))]) = Inr flat"
    using flat by (simp add: greenhouse_jobs_def)
  have b: "greenhouse_jobs (JObj [(''departments'', JArr (map department_of ds))])
             = Inr (concat pss)"
    using pss by (simp add: greenhouse_jobs_def map_result_map)
  have c: "greenhouse_jobs (JObj [(''jobs'', JArr (map JObj js)),
                                 (''departments'', JArr (map department_of ds))])
             = Inr (flat @ concat pss)"
    using flat pss by (simp add: greenhouse_jobs_def map_result_map)
  show ?thesis
    by (rule exI [where x = flat], rule exI [where x = "concat pss"])
       (intro conjI a b c len tag glen gtag)
qed

lemma greenhouse_on_success:
  assumes "greenhouse_jobs (JObj kvs) = Inr ps"
  shows "\<exists>jl dl flat pss.
            listed kvs ''jobs'' = Inr jl \<and> listed kvs ''departments'' = Inr dl
          \<and> ps = flat @ concat pss
          \<and> list_all2 (\<lambda>j p. greenhouse_posting (JStr []) j = Inr p
                              \<and> cell p ''department'' = JStr []) jl flat
          \<and> list_all2 (\<lambda>d ps_d. department_postings d = Inr ps_d
                \<and> (\<forall>p \<in> set ps_d. dict_get d ''name'' (JStr []) = Inr (cell p ''department'')))
              dl pss
          \<and> (map_of kvs ''jobs'' = None \<longrightarrow>
                (\<forall>p \<in> set ps. \<exists>d \<in> set dl.
                    dict_get d ''name'' (JStr []) = Inr (cell p ''department'')))"
proof -
  from assms obtain flat grouped where
    flat: "(if map_of kvs ''jobs'' \<noteq> None
            then bind (dict_get (JObj kvs) ''jobs'' (JArr [])) (\<lambda>js.
                 bind (py_iter js) (\<lambda>jl.
                 map_result (greenhouse_posting (JStr [])) jl))
            else Inr []) = Inr flat" and
    grouped: "(if map_of kvs ''departments'' \<noteq> None
            then bind (dict_get (JObj kvs) ''departments'' (JArr [])) (\<lambda>ds.
                 bind (py_iter ds) (\<lambda>dl.
                 bind (map_result department_postings dl) (\<lambda>pss.
                 Inr (concat pss))))
            else Inr []) = Inr grouped" and
    ps: "ps = flat @ grouped"
    unfolding greenhouse_jobs_def key_in_dict by (auto simp add: bind_eq_Inr)
  from flat obtain jl where
    jl: "listed kvs ''jobs'' = Inr jl" and
    fl: "map_result (greenhouse_posting (JStr [])) jl = Inr flat" and
    nojobs: "map_of kvs ''jobs'' = None \<longrightarrow> flat = []"
    by (cases "map_of kvs ''jobs''") (auto simp add: listed_def bind_eq_Inr)
  from grouped obtain dl pss where
    dl: "listed kvs ''departments'' = Inr dl" and
    gr: "map_result department_postings dl = Inr pss" and
    g: "grouped = concat pss"
    by (cases "map_of kvs ''departments''") (auto simp add: listed_def bind_eq_Inr)
  from fl have f2: "list_all2 (\<lambda>j p. greenhouse_posting (JStr []) j = Inr p
                              \<and> cell p ''department'' = JStr []) jl flat"
    unfolding map_result_all2
    by (rule list_all2_mono) (auto dest: greenhouse_posting_department)
  from gr have g2: "list_all2 (\<lambda>d ps_d. department_postings d = Inr ps_d
                \<and> (\<forall>p \<in> set ps_d. dict_get d ''name'' (JStr []) = Inr (cell p ''department'')))
              dl pss"
    unfolding map_result_all2
    by (rule list_all2_mono) (auto dest: department_postings_tagged)
  have only: "map_of kvs ''jobs'' = None \<longrightarrow>
                (\<forall>p \<in> set ps. \<exists>d \<in> set dl.
                    dict_get d ''name'' (JStr []) = Inr (cell p ''department''))"
  proof (intro impI ballI)
    fix p
    assume "map_of kvs ''jobs'' = None" and "p \<in> set ps"
    with nojobs ps g have "p \<in> set (concat pss)" by simp
    from concat_member_all2 [OF g2 this]
    show "\<exists>d \<in> set dl. dict_get d ''name'' (JStr []) = Inr (cell p ''department'')"
      by blast
  qed
  have eq: "ps = flat @ concat pss" by (simp add: ps g)
  show ?thesis
    by (rule exI [where x = jl], rule exI [where x = dl], rule exI [where x = flat],
        rule exI [where x = pss])
       (intro conjI jl dl eq f2 g2 only)
qed

text \<open>
  C8. Whenever the Greenhouse adapter returns for a response, its result is the postings
  of the entries under \<^verbatim>\<open>jobs\<close>, each with department \<^verbatim>\<open>""\<close>, followed by the
  postings of the departments under \<^verbatim>\<open>departments\<close>, each with the name of its
  department (\<^verbatim>\<open>""\<close> when the department has none); with no \<^verbatim>\<open>jobs\<close> key every
  posting has the name of one of the departments. And for well-formed entries: the
  response with both keys gives the result for the flat list followed by the result for
  the departments, one posting per job.
\<close>

theorem greenhouse_both_shapes:
  "(greenhouse_jobs (JObj kvs) = Inr ps \<longrightarrow>
      (\<exists>jl dl flat pss.
            listed kvs ''jobs'' = Inr jl \<and> listed kvs ''departments'' = Inr dl
          \<and> ps = flat @ concat pss
          \<and> list_all2 (\<lambda>j p. greenhouse_posting (JStr []) j = Inr p
                              \<and> cell p ''department'' = JStr []) jl flat
          \<and> list_all2 (\<lambda>d ps_d. department_postings d = Inr ps_d
                \<and> (\<forall>p \<in> set ps_d. dict_get d ''name'' (JStr []) = Inr (cell p ''department'')))
              dl pss
          \<and> (map_of kvs ''jobs'' = None \<longrightarrow>
                (\<forall>p \<in> set ps. \<exists>d \<in> set dl.
                    dict_get d ''name'' (JStr []) = Inr (cell p ''department'')))))
   \<and> (\<exists>flat grouped.
          greenhouse_jobs (JObj [(''jobs'', JArr (map JObj js))]) = Inr flat
        \<and> greenhouse_jobs (JObj [(''departments'', JArr (map department_of ds))]) = Inr grouped
        \<and> greenhouse_jobs (JObj [(''jobs'', JArr (map JObj js)),
                                  (''departments'', JArr (map department_of ds))])
            = Inr (flat @ grouped)
        \<and> length flat = length js
        \<and> (\<forall>p \<in> set flat. cell p ''department'' = JStr [])
        \<and> length grouped = sum_list (map (length \<circ> snd) ds)
        \<and> (\<forall>p \<in> set grouped. \<exists>d \<in> set ds. cell p ''department'' = fst d))"
proof (rule conjI)
  show "greenhouse_jobs (JObj kvs) = Inr ps \<longrightarrow>
      (\<exists>jl dl flat pss.
            listed kvs ''jobs'' = Inr jl \<and> listed kvs ''departments'' = Inr dl
          \<and> ps = flat @ concat pss
          \<and> list_all2 (\<lambda>j p. greenhouse_posting (JStr []) j = Inr p
                              \<and> cell p ''department'' = JStr []) jl flat
          \<and> list_all2 (\<lambda>d ps_d. department_postings d = Inr ps_d
                \<and> (\<forall>p \<in> set ps_d. dict_get d ''name'' (JStr []) = Inr (cell p ''department'')))
              dl pss
          \<and> (map_of kvs ''jobs'' = None \<longrightarrow>
                (\<forall>p \<in> set ps. \<exists>d \<in> set dl.
                    dict_get d ''name'' (JStr []) = Inr (cell p ''department''))))"
    by (rule impI) (rule greenhouse_on_success)
qed (rule greenhouse_well_formed)

lemma example_greenhouse: "greenhouse_jobs (JObj example_fields) = Inr example_postings"
  by code_simp

theorem greenhouse_both_shapes_witness:
  "greenhouse_jobs (JObj example_fields) = Inr example_postings
   \<and> (\<exists>jl dl flat pss.
            listed example_fields ''jobs'' = Inr jl
          \<and> listed example_fields ''departments'' = Inr dl
          \<and> example_postings = flat @ concat pss
          \<and> list_all2 (\<lambda>j p. greenhouse_posting (JStr []) j = Inr p
                              \<and> cell p ''department'' = JStr []) jl flat
          \<and> list_all2 (\<lambda>d ps_d. department_postings d = Inr ps_d
                \<and> (\<forall>p \<in> set ps_d. dict_get d ''name'' (JStr []) = Inr (cell p ''department'')))
              dl pss
          \<and> (map_of example_fields ''jobs'' = None \<longrightarrow>
                (\<forall>p \<in> set example_postings. \<exists>d \<in> set dl.
                    dict_get d ''name'' (JStr []) = Inr (cell p ''department''))))"
  by (rule conjI [OF example_greenhouse
        greenhouse_both_shapes [of example_fields example_postings "[]" "[]",
          THEN conjunct1, THEN mp, OF example_greenhouse]])

section \<open>Properties of the Workday adapter\<close>

lemma workday_loop_requests:
  "\<exists>n. 0 < n
      \<and> fst (workday_loop post host offset jobs) = map (\<lambda>i. offset + 20 * int i) [0..<n]
      \<and> (offset \<le> 500 \<longrightarrow> offset + 20 * int (n - 1) \<le> 500)"
proof (induction post host offset jobs rule: workday_loop.induct)
  case (1 post host offset all_jobs)
  have one: "\<exists>n. 0 < n \<and> [offset] = map (\<lambda>i. offset + 20 * int i) [0..<n]
                \<and> (offset \<le> 500 \<longrightarrow> offset + 20 * int (n - 1) \<le> 500)"
    by (rule exI [where x = 1]) simp
  show ?case
  proof (cases "post offset")
    case (Inl e)
    then show ?thesis using one by (subst workday_loop.simps) simp
  next
    case (Inr payload)
    show ?thesis
    proof (cases "workday_page host offset all_jobs payload")
      case (Inl e)
      with Inr show ?thesis using one by (subst workday_loop.simps) simp
    next
      case r: (Inr fl)
      show ?thesis
      proof (cases fl)
        case (Break js)
        with Inr r show ?thesis using one by (subst workday_loop.simps) simp
      next
        case (Again js)
        from "1.IH" [OF Inr] r Again obtain n where
          n: "0 < n" and
          eq: "fst (workday_loop post host (offset + limit) js)
                 = map (\<lambda>i. offset + limit + 20 * int i) [0..<n]" and
          bound: "offset + limit \<le> 500 \<longrightarrow> offset + limit + 20 * int (n - 1) \<le> 500"
          by blast
        from r Again have le: "offset + 20 \<le> 500"
          by (auto dest: workday_page_Again)
        have unfold: "fst (workday_loop post host offset all_jobs)
                        = offset # fst (workday_loop post host (offset + limit) js)"
          using Inr r Again by (subst workday_loop.simps) (simp add: Let_def)
        have "map (\<lambda>i. offset + 20 * int i) [0..<Suc n]
                = offset # map (\<lambda>i. offset + limit + 20 * int i) [0..<n]"
          by (simp add: map_upt_Suc limit_def del: upt_Suc) 
        with unfold eq have a: "fst (workday_loop post host offset all_jobs)
                                  = map (\<lambda>i. offset + 20 * int i) [0..<Suc n]"
          by simp
        from bound le n have b: "offset + 20 * int (Suc n - 1) \<le> 500"
          by (cases n) (simp_all add: limit_def)
        show ?thesis
          by (rule exI [where x = "Suc n"]) (use a b in simp)
      qed
    qed
  qed
qed

lemma workday_loop_bound:
  "\<exists>n. 1 \<le> n \<and> n \<le> 26 \<and> fst (workday_loop post host 0 jobs) = map (\<lambda>i. 20 * int i) [0..<n]"
proof -
  from workday_loop_requests [of post host 0 jobs] obtain n where
    n: "0 < n" and eq: "fst (workday_loop post host 0 jobs) = map (\<lambda>i. 0 + 20 * int i) [0..<n]"
    and b: "20 * int (n - 1) \<le> 500"
    by auto
  from b n have "n \<le> 26" by linarith
  with n eq show ?thesis by (intro exI [where x = n]) simp
qed

lemma workday_loop_empty_page:
  assumes "post offset = Inr payload" and "page_items payload = Inr items" and "\<not> truthy items"
  shows "workday_loop post host offset jobs = ([offset], Inr jobs)"
  using assms by (subst workday_loop.simps) (simp add: workday_page_def)

lemma workday_page_total_reached:
  assumes "reported_total payload = Inr tot" and "tot \<noteq> JNull"
    and "py_int tot = Inr n" and "n \<le> offset + limit"
  shows "workday_page host offset jobs payload \<noteq> Inr (Again js)"
  using assms
  by (auto simp add: workday_page_def bind_def Let_def split: sum.splits if_splits)

lemma workday_loop_one_request:
  assumes "\<And>payload js. post offset = Inr payload
             \<Longrightarrow> workday_page host offset jobs payload \<noteq> Inr (Again js)"
  shows "fst (workday_loop post host offset jobs) = [offset]"
proof (cases "post offset")
  case (Inl e)
  then show ?thesis by (subst workday_loop.simps) simp
next
  case (Inr payload)
  show ?thesis
  proof (cases "workday_page host offset jobs payload")
    case (Inl e)
    with Inr show ?thesis by (subst workday_loop.simps) simp
  next
    case r: (Inr fl)
    with assms [OF Inr] obtain js where "fl = Break js" by (cases fl) auto
    with Inr r show ?thesis by (subst workday_loop.simps) simp
  qed
qed

lemma workday_loop_total_reached:
  assumes "post offset = Inr payload" and "reported_total payload = Inr tot"
    and "tot \<noteq> JNull" and "py_int tot = Inr n" and "n \<le> offset + limit"
  shows "fst (workday_loop post host offset jobs) = [offset]"
proof (rule workday_loop_one_request)
  fix p js
  assume "post offset = Inr p"
  with assms(1) have "p = payload" by simp
  with workday_page_total_reached [OF assms(2-5)]
  show "workday_page host offset jobs p \<noteq> Inr (Again js)" by simp
qed

lemma workday_loop_ceiling:
  assumes "500 < offset + limit"
  shows "fst (workday_loop post host offset jobs) = [offset]"
proof (rule workday_loop_one_request)
  fix p js
  show "workday_page host offset jobs p \<noteq> Inr (Again js)"
    using assms by (auto simp add: limit_def dest: workday_page_Again)
qed

lemma workday_first_page_full:
  assumes "post 0 = Inr (JObj [(''jobPostings'', JArr its), (''total'', JInt 20)])"
  shows "fst (workday_loop post host 0 []) = [0]"
  using assms
  by (rule workday_loop_total_reached [where tot = "JInt 20" and n = 20])
     (simp_all add: reported_total_def py_or_def limit_def)

lemma example_workday:
  "workday_search workday_world ''https://acme.wd3.myworkdayjobs.com/en-US/Careers''
     = ([0], Inr (replicate 20 workday_item_posting))"
  by code_simp

text \<open>
  C4. The pagination loop of the Workday adapter ends: started at offset 0 it sends between
  1 and 26 requests, at the offsets 0, 20, 40, ... in turn, whatever the responses are.
  The request at \<open>offset\<close> is the last one when its page has no items; when the total
  that the response reports (the value under \<^verbatim>\<open>total\<close>, or else under
  \<^verbatim>\<open>totalCount\<close>) is at most the advanced offset; and in any case when the advanced
  offset exceeds 500. A first page with 20 items and the total 20 is the only request.
\<close>

theorem workday_terminates:
  "(\<exists>n. 1 \<le> n \<and> n \<le> 26
        \<and> fst (workday_loop post host 0 jobs) = map (\<lambda>i. 20 * int i) [0..<n])
   \<and> length (fst (workday_search w site_url)) \<le> 26
   \<and> (post offset = Inr payload \<and> page_items payload = Inr items \<and> \<not> truthy items
        \<longrightarrow> workday_loop post host offset jobs = ([offset], Inr jobs))
   \<and> (post offset = Inr payload \<and> reported_total payload = Inr tot \<and> tot \<noteq> JNull
        \<and> py_int tot = Inr m \<and> m \<le> offset + limit
        \<longrightarrow> fst (workday_loop post host offset jobs) = [offset])
   \<and> (500 < offset + limit \<longrightarrow> fst (workday_loop post host offset jobs) = [offset])
   \<and> (post 0 = Inr (JObj [(''jobPostings'', JArr its), (''total'', JInt 20)])
        \<and> length its = 20
        \<longrightarrow> fst (workday_loop post host 0 []) = [0])"
proof (intro conjI impI)
  show "\<exists>n. 1 \<le> n \<and> n \<le> 26
          \<and> fst (workday_loop post host 0 jobs) = map (\<lambda>i. 20 * int i) [0..<n]"
    by (rule workday_loop_bound)
next
  let ?host = "fst (urlparse w site_url)"
  obtain p where "fst (workday_search w site_url) = fst (workday_loop p ?host 0 [])"
    by (simp add: workday_search_def Let_def)
  moreover from workday_loop_bound [of p ?host "[]"] obtain n where
    "n \<le> 26" and "fst (workday_loop p ?host 0 []) = map (\<lambda>i. 20 * int i) [0..<n]"
    by blast
  ultimately show "length (fst (workday_search w site_url)) \<le> 26" by simp
next
  assume "post offset = Inr payload \<and> page_items payload = Inr items \<and> \<not> truthy items"
  then show "workday_loop post host offset jobs = ([offset], Inr jobs)"
    by (blast intro: workday_loop_empty_page)
next
  assume "post offset = Inr payload \<and> reported_total payload = Inr tot \<and> tot \<noteq> JNull
            \<and> py_int tot = Inr m \<and> m \<le> offset + limit"
  then show "fst (workday_loop post host offset jobs) = [offset]"
    by (blast intro: workday_loop_total_reached)
next
  assume "500 < offset + limit"
  then show "fst (workday_loop post host offset jobs) = [offset]"
    by (rule workday_loop_ceiling)
next
  assume "post 0 = Inr (JObj [(''jobPostings'', JArr its), (''total'', JInt 20)])
            \<and> length its = 20"
  then show "fst (workday_loop post host 0 []) = [0]"
    by (blast intro: workday_first_page_full)
qed

theorem workday_terminates_witness:
  "workday_search workday_world ''https://acme.wd3.myworkdayjobs.com/en-US/Careers''
     = ([0], Inr (replicate 20 workday_item_posting))
   \<and> fst (workday_loop (\<lambda>offset. Inr (JObj [(''jobPostings'', JArr (replicate 20 workday_item)),
                                              (''total'', JInt 20)])) [] 0 []) = [0]
   \<and> workday_loop (\<lambda>offset. Inr (JObj [])) [] 40 [workday_item] = ([40], Inr [workday_item])
   \<and> fst (workday_loop (\<lambda>offset. Inr (JObj [(''items'', JArr [workday_item]), (''total'', JInt 0),
                                              (''totalCount'', JStr ''60'')])) [] 40 []) = [40]
   \<and> fst (workday_loop (\<lambda>offset. Inr (JObj [(''items'', JArr [workday_item])])) [] 500 [])
       = [500]"
proof -
  let ?full = "\<lambda>offset :: int. (Inr (JObj [(''jobPostings'', JArr (replicate 20 workday_item)),
                                           (''total'', JInt 20)]) :: error + json)"
  let ?empty = "\<lambda>offset :: int. (Inr (JObj []) :: error + json)"
  let ?count = "\<lambda>offset :: int. (Inr (JObj [(''items'', JArr [workday_item]), (''total'', JInt 0),
                                            (''totalCount'', JStr ''60'')]) :: error + json)"
  let ?more = "\<lambda>offset :: int. (Inr (JObj [(''items'', JArr [workday_item])]) :: error + json)"
  note t = workday_terminates
  have a: "fst (workday_loop ?full [] 0 []) = [0]"
    using t [of ?full "[]" "[]" workday_world "[]" 0 JNull JNull JNull 0
             "replicate 20 workday_item"]
    by simp
  have b: "workday_loop ?empty [] 40 [workday_item] = ([40], Inr [workday_item])"
    using t [of ?empty "[]" "[workday_item]" workday_world "[]" 40 "JObj []" "JArr []" JNull 0 "[]"]
    by (simp add: page_items_def py_or_def)
  have i: "py_int (JStr ''60'') = Inr 60"
    by code_simp
  have c: "fst (workday_loop ?count [] 40 []) = [40]"
    using t [of ?count "[]" "[]" workday_world "[]" 40
             "JObj [(''items'', JArr [workday_item]), (''total'', JInt 0),
                    (''totalCount'', JStr ''60'')]" JNull "JStr ''60''" 60 "[]"] i
    by (simp add: reported_total_def py_or_def limit_def)
  have d: "fst (workday_loop ?more [] 500 []) = [500]"
    using t [of ?more "[]" "[]" workday_world "[]" 500 JNull JNull JNull 0 "[]"]
    by (simp add: limit_def)
  from example_workday a b c d show ?thesis by simp
qed

end
